theory Spec2Isabelle
  imports Main "HOL-Library.Word"
begin

section \<open>Python values shared by the model\<close>

text \<open>
  A Python \<open>str\<close> is a sequence of Unicode code points; it is modelled as a list of
  natural numbers. \<open>str\<close> turns an ASCII literal of the source into that form.
\<close>

type_synonym pystr = "nat list"

definition str :: "string \<Rightarrow> pystr" where
  "str s = map of_char s"

text \<open>\<open>sub in s\<close> on strings: \<open>sub\<close> occurs in \<open>s\<close> as a contiguous slice.\<close>

fun startswith :: "'a list \<Rightarrow> 'a list \<Rightarrow> bool" where
  "startswith s [] = True"
| "startswith [] (p # ps) = False"
| "startswith (c # cs) (p # ps) = (c = p \<and> startswith cs ps)"

fun contains :: "'a list \<Rightarrow> 'a list \<Rightarrow> bool" where
  "contains [] sub = (sub = [])"
| "contains (c # cs) sub = (startswith (c # cs) sub \<or> contains cs sub)"

section \<open>Duplicate filter: \<open>duplicate_check\<close>\<close>

text \<open>
  \<open>duplicate_check(hash_function)\<close> returns the closure \<open>predicate\<close> over a fresh
  \<open>state = set()\<close>. The closure's state is passed explicitly: \<open>predicate\<close> takes the
  state and returns its answer with the state afterwards.
\<close>

definition predicate :: "('a \<Rightarrow> 'h) \<Rightarrow> 'a \<Rightarrow> 'h set \<Rightarrow> bool \<times> 'h set" where
  "predicate hash_function entry state =
     (let entry_hash = hash_function entry
      in if entry_hash \<notin> state then (False, insert entry_hash state)
         else (True, state))"

definition duplicate_check :: "('a \<Rightarrow> 'h) \<Rightarrow> ('a \<Rightarrow> 'h set \<Rightarrow> bool \<times> 'h set) \<times> 'h set" where
  "duplicate_check hash_function = (predicate hash_function, {})"

text \<open>Calling a stateful predicate once per entry of a sequence, in order.\<close>

fun feed :: "('a \<Rightarrow> 's \<Rightarrow> bool \<times> 's) \<Rightarrow> 's \<Rightarrow> 'a list \<Rightarrow> bool list \<times> 's" where
  "feed p st [] = ([], st)"
| "feed p st (x # xs) =
     (case p x st of (r, st') \<Rightarrow>
        (case feed p st' xs of (rs, st'') \<Rightarrow> (r # rs, st'')))"

definition seen_sequence :: "('a \<Rightarrow> 'h) \<Rightarrow> 'a list \<Rightarrow> bool list \<times> 'h set" where
  "seen_sequence hash_function xs =
     (case duplicate_check hash_function of (p, state) \<Rightarrow> feed p state xs)"

section \<open>Verbosity resolver: \<open>reconfigure_logging\<close>\<close>

text \<open>The level constants of Python's \<open>logging\<close> module.\<close>

definition NOTSET :: int where "NOTSET = 0"
definition DEBUG :: int where "DEBUG = 10"
definition WARNING :: int where "WARNING = 30"

datatype stream = Stdout | Stderr

record handler =
  h_stream :: stream
  h_fmt :: pystr

text \<open>The part of the process-wide \<open>logging\<close> configuration the code reads and writes:
  the root logger's level, name and handlers.\<close>

record logging =
  root_level :: int
  root_name :: pystr
  root_handlers :: "handler list"

definition reconfigure_logging :: "int \<Rightarrow> logging \<Rightarrow> logging" where
  "reconfigure_logging verbose_level lg =
     (if verbose_level = 0 then lg
      else
        let level = WARNING - min WARNING (10 * verbose_level);
            fmt_string =
              (if verbose_level \<le> 3 then str ''%(name)s: %(levelname)s: %(message)s''
               else str ''%(name)s: %(levelname)s: %(funcName)s: %(message)s'')
        in lg\<lparr>root_level := level,
               root_handlers := [\<lparr>h_stream = Stdout, h_fmt = fmt_string\<rparr>]\<rparr>)"

section \<open>Exceptions\<close>

text \<open>
  What \<open>subprocess.check_output\<close> hands back: \<open>bytes\<close> or \<open>str\<close>, depending on the
  Python version; and the \<open>output\<close> attribute of a \<open>CalledProcessError\<close>, which
  \<open>run_command\<close> replaces by a list of lines.
\<close>

datatype cmd_output = Bytes "8 word list" | Text pystr

datatype captured = Captured cmd_output | Lines "pystr list"

text \<open>
  The exceptions the modelled code raises, catches or lets through. \<open>KeyboardInterrupt\<close>,
  \<open>SystemExit\<close> and \<open>GeneratorExit\<close> derive from \<open>BaseException\<close> only; the others derive
  from \<open>Exception\<close>. \<open>OtherException\<close> and \<open>OtherBaseException\<close> stand for any further
  class of either kind that a caller-supplied function may raise.
\<close>

datatype exn =
    KeyboardInterrupt
  | SystemExit int
  | GeneratorExit
  | OtherBaseException pystr
  | KeyError pystr
  | IndexError
  | TypeError
  | ValueError
  | JSONDecodeError
  | UnicodeDecodeError
  | OSError
  | CalledProcessError int captured
  | OtherException pystr

text \<open>\<open>isinstance(e, Exception)\<close>: what \<open>except Exception\<close> catches.\<close>

fun is_Exception :: "exn \<Rightarrow> bool" where
  "is_Exception KeyboardInterrupt = False"
| "is_Exception (SystemExit c) = False"
| "is_Exception GeneratorExit = False"
| "is_Exception (OtherBaseException n) = False"
| "is_Exception e = True"

section \<open>The \<open>json\<close> module: \<open>json.loads\<close> and \<open>json.dumps\<close>\<close>

text \<open>
  The wrapper configuration travels as JSON text, written by \<open>json.dumps\<close> and read by
  \<open>json.loads\<close> of Python's standard library. Both are modelled here with their default
  options. A JSON value as \<open>json.loads\<close> returns it: \<open>None\<close>, a \<open>bool\<close>, an \<open>int\<close>, a
  \<open>float\<close> (kept as its lexeme: floating point arithmetic is not modelled), a \<open>str\<close>, a
  \<open>list\<close>, or a \<open>dict\<close> given by its key-value pairs in the order of the text, where a later
  pair with the same key overrides an earlier one.
\<close>

datatype json =
    JNull
  | JBool bool
  | JInt int
  | JFloat pystr
  | JStr pystr
  | JArr "json list"
  | JObj "(pystr \<times> json) list"

datatype token =
    T_lbrace | T_rbrace | T_lbracket | T_rbracket | T_colon | T_comma
  | T_string pystr | T_int int | T_float pystr | T_true | T_false | T_null

text \<open>
  Reading a string literal, from behind its opening quote (\<open>scanstring\<close>): the decoded
  string and the text after the closing quote. A backslash introduces one of the escapes
  \<open>" \ / b f n r t\<close> or \<open>uXXXX\<close>; a high surrogate escape directly followed by a low
  surrogate escape is one code point; a raw control character ends the scan with an error.
\<close>

definition hexval :: "nat \<Rightarrow> nat option" where
  "hexval c =
     (if 0x30 \<le> c \<and> c \<le> 0x39 then Some (c - 0x30)
      else if 0x61 \<le> c \<and> c \<le> 0x66 then Some (c - 0x61 + 10)
      else if 0x41 \<le> c \<and> c \<le> 0x46 then Some (c - 0x41 + 10)
      else None)"

fun hex4 :: "pystr \<Rightarrow> nat option" where
  "hex4 [a, b, c, d] =
     (case (hexval a, hexval b, hexval c, hexval d) of
        (Some x3, Some x2, Some x1, Some x0) \<Rightarrow> Some (((x3 * 16 + x2) * 16 + x1) * 16 + x0)
      | _ \<Rightarrow> None)"
| "hex4 _ = None"

definition unescape :: "nat \<Rightarrow> nat option" where
  "unescape esc =
     (if esc = 0x22 then Some 0x22
      else if esc = 0x5C then Some 0x5C
      else if esc = 0x2F then Some 0x2F
      else if esc = 0x62 then Some 0x08
      else if esc = 0x66 then Some 0x0C
      else if esc = 0x6E then Some 0x0A
      else if esc = 0x72 then Some 0x0D
      else if esc = 0x74 then Some 0x09
      else None)"

definition chunk :: "nat \<Rightarrow> (pystr \<times> pystr) option \<Rightarrow> (pystr \<times> pystr) option" where
  "chunk c res = (case res of None \<Rightarrow> None | Some (s, rest) \<Rightarrow> Some (c # s, rest))"

fun scanstring :: "pystr \<Rightarrow> (pystr \<times> pystr) option" where
  "scanstring [] = None"
| "scanstring (c # cs) =
     (if c = 0x22 then Some ([], cs)
      else if c = 0x5C then
        (case cs of
           [] \<Rightarrow> None
         | esc # r \<Rightarrow>
             if esc = 0x75 then
               (case hex4 (take 4 r) of
                  None \<Rightarrow> None
                | Some uni \<Rightarrow>
                    if 0xD800 \<le> uni \<and> uni \<le> 0xDBFF \<and> take 2 (drop 4 r) = [0x5C, 0x75] then
                      (case hex4 (take 4 (drop 6 r)) of
                         None \<Rightarrow> None
                       | Some uni2 \<Rightarrow>
                           if 0xDC00 \<le> uni2 \<and> uni2 \<le> 0xDFFF
                           then chunk (0x10000 + ((uni - 0xD800) * 1024 + (uni2 - 0xDC00)))
                                  (scanstring (drop 10 r))
                           else chunk uni (scanstring (drop 4 r)))
                    else chunk uni (scanstring (drop 4 r)))
             else
               (case unescape esc of
                  None \<Rightarrow> None
                | Some ch \<Rightarrow> chunk ch (scanstring r)))
      else if c < 0x20 then None
      else chunk c (scanstring cs))"

text \<open>Each scanner leaves less text than it was given, so the tokenizer below terminates.\<close>

lemma chunk_Some: "chunk c res = Some (x, rest) \<Longrightarrow> \<exists>y. res = Some (y, rest)"
  by (auto simp: chunk_def split: option.splits)

lemma scanstring_shorter_aux:
  "length s \<le> n \<Longrightarrow> scanstring s = Some (x, rest) \<Longrightarrow> length rest < length s"
proof (induction n arbitrary: s x rest)
  case 0
  then show ?case by simp
next
  case (Suc n)
  have IH: "\<And>t y r. scanstring t = Some (y, r) \<Longrightarrow> length t \<le> n \<longrightarrow> length r < length t"
    using Suc.IH by blast
  from Suc.prems show ?case
    by (cases s) (auto split: if_splits list.splits option.splits dest!: chunk_Some IH)
qed

lemma scanstring_shorter: "scanstring s = Some (x, rest) \<Longrightarrow> length rest < length s"
  using scanstring_shorter_aux [of s "length s"] by simp

text \<open>
  Reading a number: an optional minus sign, then \<open>0\<close> or a digit from 1 to 9 followed by
  digits; after that an optional fraction (a dot and at least one digit) and an optional
  exponent (\<open>e\<close> or \<open>E\<close>, an optional sign and at least one digit). With a fraction or
  an exponent the number is a \<open>float\<close>, otherwise an \<open>int\<close>.
\<close>

definition is_digit :: "nat \<Rightarrow> bool" where
  "is_digit c = (0x30 \<le> c \<and> c \<le> 0x39)"

definition digits_value :: "pystr \<Rightarrow> nat" where
  "digits_value ds = foldl (\<lambda>acc d. acc * 10 + (d - 0x30)) 0 ds"

definition scan_fraction :: "pystr \<Rightarrow> pystr \<times> pystr" where
  "scan_fraction s =
     (case s of
        p # r \<Rightarrow>
          if p = 0x2E \<and> takeWhile is_digit r \<noteq> []
          then (p # takeWhile is_digit r, dropWhile is_digit r)
          else ([], s)
      | [] \<Rightarrow> ([], s))"

definition scan_exponent :: "pystr \<Rightarrow> pystr \<times> pystr" where
  "scan_exponent s =
     (case s of
        e # r \<Rightarrow>
          if e = 0x65 \<or> e = 0x45 then
            (case (case r of
                     sg # t \<Rightarrow> if sg = 0x2B \<or> sg = 0x2D then ([sg], t) else ([], r)
                   | [] \<Rightarrow> ([], r)) of
               (sign, r') \<Rightarrow>
                 if takeWhile is_digit r' \<noteq> []
                 then (e # sign @ takeWhile is_digit r', dropWhile is_digit r')
                 else ([], s))
          else ([], s)
      | [] \<Rightarrow> ([], s))"

definition scan_number :: "pystr \<Rightarrow> (token \<times> pystr) option" where
  "scan_number s =
     (case (case s of
              c # r \<Rightarrow> if c = 0x2D then ([c], r) else ([], s)
            | [] \<Rightarrow> ([], s)) of
        (sign, s1) \<Rightarrow>
          (case s1 of
             [] \<Rightarrow> None
           | d # ds \<Rightarrow>
               if \<not> is_digit d then None
               else
                 (case (if d = 0x30 then ([d], ds)
                        else (d # takeWhile is_digit ds, dropWhile is_digit ds)) of
                    (intpart, r1) \<Rightarrow>
                      (case scan_fraction r1 of
                         (frac, r2) \<Rightarrow>
                           (case scan_exponent r2 of
                              (exp, r3) \<Rightarrow>
                                if frac = [] \<and> exp = []
                                then Some (T_int (if sign = [] then int (digits_value intpart)
                                                  else - int (digits_value intpart)), r3)
                                else Some (T_float (sign @ intpart @ frac @ exp), r3))))))"

lemma scan_fraction_shorter: "scan_fraction s = (f, r) \<Longrightarrow> length r \<le> length s"
  by (auto simp: scan_fraction_def split: list.splits if_splits
        intro: le_trans [OF length_dropWhile_le])

lemma scan_exponent_shorter: "scan_exponent s = (f, r) \<Longrightarrow> length r \<le> length s"
  by (auto simp: scan_exponent_def split: list.splits if_splits
        intro: le_trans [OF length_dropWhile_le] le_SucI)

lemma scan_number_shorter: "scan_number s = Some (t, r) \<Longrightarrow> length r < length s"
proof -
  assume a: "scan_number s = Some (t, r)"
  have dw: "length (dropWhile is_digit xs) \<le> length xs" for xs :: pystr
    by (rule length_dropWhile_le)
  from a show ?thesis
    apply (simp add: scan_number_def split: list.splits if_splits prod.splits)
    apply (auto dest!: scan_fraction_shorter scan_exponent_shorter)
    using dw le_trans apply (metis le_imp_less_Suc le_SucI)+
    done
qed

text \<open>
  The tokenizer: white space (space, tab, line feed, carriage return) separates tokens;
  \<open>NaN\<close>, \<open>Infinity\<close> and \<open>-Infinity\<close> are the float constants \<open>json.loads\<close> accepts
  beyond the JSON grammar.
\<close>

definition tok :: "token \<Rightarrow> token list option \<Rightarrow> token list option" where
  "tok t res = map_option ((#) t) res"

function tokenize :: "pystr \<Rightarrow> token list option" where
  "tokenize [] = Some []"
| "tokenize (c # cs) =
     (if c = 0x20 \<or> c = 0x09 \<or> c = 0x0A \<or> c = 0x0D then tokenize cs
      else if c = 0x7B then tok T_lbrace (tokenize cs)
      else if c = 0x7D then tok T_rbrace (tokenize cs)
      else if c = 0x5B then tok T_lbracket (tokenize cs)
      else if c = 0x5D then tok T_rbracket (tokenize cs)
      else if c = 0x3A then tok T_colon (tokenize cs)
      else if c = 0x2C then tok T_comma (tokenize cs)
      else if c = 0x22 then
        (case scanstring cs of
           None \<Rightarrow> None
         | Some (s, r) \<Rightarrow> tok (T_string s) (tokenize r))
      else if startswith (c # cs) (str ''null'') then tok T_null (tokenize (drop 3 cs))
      else if startswith (c # cs) (str ''true'') then tok T_true (tokenize (drop 3 cs))
      else if startswith (c # cs) (str ''false'') then tok T_false (tokenize (drop 4 cs))
      else
        (case scan_number (c # cs) of
           Some (t, r) \<Rightarrow> tok t (tokenize r)
         | None \<Rightarrow>
             if startswith (c # cs) (str ''NaN'')
             then tok (T_float (str ''NaN'')) (tokenize (drop 2 cs))
             else if startswith (c # cs) (str ''Infinity'')
             then tok (T_float (str ''Infinity'')) (tokenize (drop 7 cs))
             else if startswith (c # cs) (str ''-Infinity'')
             then tok (T_float (str ''-Infinity'')) (tokenize (drop 8 cs))
             else None))"
  by pat_completeness auto
termination
  by (relation "measure length")
     (auto dest: scanstring_shorter scan_number_shorter simp: less_Suc_eq_le)


text \<open>
  The structure of the token sequence. The parser keeps the containers that are still open
  on a stack, innermost first, and what may come next: a value, a key, a colon, or a comma
  or closing bracket. It accepts exactly the JSON grammar: no trailing comma, string keys
  only, one value per text.
\<close>

datatype frame =
    F_array "json list"
  | F_object "(pystr \<times> json) list"
  | F_member "(pystr \<times> json) list" pystr

datatype mode = M_value | M_value_or_close | M_key | M_key_or_close | M_colon | M_next | M_done json

fun push_value :: "json \<Rightarrow> frame list \<Rightarrow> (frame list \<times> mode) option" where
  "push_value v [] = Some ([], M_done v)"
| "push_value v (F_array xs # st) = Some (F_array (xs @ [v]) # st, M_next)"
| "push_value v (F_member ps k # st) = Some (F_object (ps @ [(k, v)]) # st, M_next)"
| "push_value v (F_object ps # st) = None"

fun scalar :: "token \<Rightarrow> json option" where
  "scalar (T_string s) = Some (JStr s)"
| "scalar (T_int i) = Some (JInt i)"
| "scalar (T_float f) = Some (JFloat f)"
| "scalar T_true = Some (JBool True)"
| "scalar T_false = Some (JBool False)"
| "scalar T_null = Some JNull"
| "scalar t = None"

definition begin_value :: "token \<Rightarrow> frame list \<Rightarrow> (frame list \<times> mode) option" where
  "begin_value t st =
     (if t = T_lbrace then Some (F_object [] # st, M_key_or_close)
      else if t = T_lbracket then Some (F_array [] # st, M_value_or_close)
      else (case scalar t of None \<Rightarrow> None | Some v \<Rightarrow> push_value v st))"

definition begin_member :: "token \<Rightarrow> frame list \<Rightarrow> (frame list \<times> mode) option" where
  "begin_member t st =
     (case (t, st) of
        (T_string k, F_object ps # st') \<Rightarrow> Some (F_member ps k # st', M_colon)
      | _ \<Rightarrow> None)"

definition close_array :: "frame list \<Rightarrow> (frame list \<times> mode) option" where
  "close_array st = (case st of F_array xs # st' \<Rightarrow> push_value (JArr xs) st' | _ \<Rightarrow> None)"

definition close_object :: "frame list \<Rightarrow> (frame list \<times> mode) option" where
  "close_object st = (case st of F_object ps # st' \<Rightarrow> push_value (JObj ps) st' | _ \<Rightarrow> None)"

fun parse_step :: "frame list \<times> mode \<Rightarrow> token \<Rightarrow> (frame list \<times> mode) option" where
  "parse_step (st, M_value) t = begin_value t st"
| "parse_step (st, M_value_or_close) t =
     (if t = T_rbracket then close_array st else begin_value t st)"
| "parse_step (st, M_key) t = begin_member t st"
| "parse_step (st, M_key_or_close) t =
     (if t = T_rbrace then close_object st else begin_member t st)"
| "parse_step (st, M_colon) t = (if t = T_colon then Some (st, M_value) else None)"
| "parse_step (st, M_next) t =
     (case st of
        F_array xs # st' \<Rightarrow>
          if t = T_comma then Some (st, M_value)
          else if t = T_rbracket then close_array st
          else None
      | F_object ps # st' \<Rightarrow>
          if t = T_comma then Some (st, M_key)
          else if t = T_rbrace then close_object st
          else None
      | _ \<Rightarrow> None)"
| "parse_step (st, M_done v) t = None"

fun parse_tokens :: "frame list \<times> mode \<Rightarrow> token list \<Rightarrow> (frame list \<times> mode) option" where
  "parse_tokens cfg [] = Some cfg"
| "parse_tokens cfg (t # ts) =
     (case parse_step cfg t of None \<Rightarrow> None | Some cfg' \<Rightarrow> parse_tokens cfg' ts)"

text \<open>\<open>json.loads\<close>: the value of a text, or \<open>JSONDecodeError\<close>.\<close>

definition json_loads :: "pystr \<Rightarrow> exn + json" where
  "json_loads s =
     (case tokenize s of
        None \<Rightarrow> Inl JSONDecodeError
      | Some ts \<Rightarrow>
          (case parse_tokens ([], M_value) ts of
             Some ([], M_done v) \<Rightarrow> Inr v
           | _ \<Rightarrow> Inl JSONDecodeError))"

text \<open>
  \<open>json.dumps\<close> with its defaults: \<open>ensure_ascii\<close> (every character outside the printable
  ASCII range is written as an escape, one beyond U+FFFF as a surrogate pair), separators
  \<open>', '\<close> and \<open>': '\<close>, integers in decimal.
\<close>

definition hexdigit :: "nat \<Rightarrow> nat" where
  "hexdigit d = (if d < 10 then 0x30 + d else 0x61 + (d - 10))"

definition u_escape :: "nat \<Rightarrow> pystr" where
  "u_escape n =
     [0x5C, 0x75, hexdigit (n div 4096 mod 16), hexdigit (n div 256 mod 16),
      hexdigit (n div 16 mod 16), hexdigit (n mod 16)]"

definition escape_ascii :: "nat \<Rightarrow> pystr" where
  "escape_ascii c =
     (if c = 0x5C then [0x5C, 0x5C]
      else if c = 0x22 then [0x5C, 0x22]
      else if c = 0x08 then [0x5C, 0x62]
      else if c = 0x0C then [0x5C, 0x66]
      else if c = 0x0A then [0x5C, 0x6E]
      else if c = 0x0D then [0x5C, 0x72]
      else if c = 0x09 then [0x5C, 0x74]
      else if 0x20 \<le> c \<and> c \<le> 0x7E then [c]
      else if c < 0x10000 then u_escape c
      else u_escape (0xD800 + (c - 0x10000) div 1024 mod 1024)
           @ u_escape (0xDC00 + (c - 0x10000) mod 1024))"

definition encode_basestring_ascii :: "pystr \<Rightarrow> pystr" where
  "encode_basestring_ascii s = [0x22] @ concat (map escape_ascii s) @ [0x22]"

fun str_nat :: "nat \<Rightarrow> pystr" where
  "str_nat n = (if n < 10 then [0x30 + n] else str_nat (n div 10) @ [0x30 + n mod 10])"

declare str_nat.simps [simp del]

definition str_int :: "int \<Rightarrow> pystr" where
  "str_int i = (if i < 0 then 0x2D # str_nat (nat (- i)) else str_nat (nat i))"

fun join :: "pystr \<Rightarrow> pystr list \<Rightarrow> pystr" where
  "join sep [] = []"
| "join sep [x] = x"
| "join sep (x # y # ys) = x @ sep @ join sep (y # ys)"

fun json_dumps :: "json \<Rightarrow> pystr" where
  "json_dumps JNull = str ''null''"
| "json_dumps (JBool b) = (if b then str ''true'' else str ''false'')"
| "json_dumps (JInt i) = str_int i"
| "json_dumps (JFloat f) = f"
| "json_dumps (JStr s) = encode_basestring_ascii s"
| "json_dumps (JArr xs) = str ''['' @ join (str '', '') (map json_dumps xs) @ str '']''"
| "json_dumps (JObj ps) =
     str ''{'' @ join (str '', '')
        (map (\<lambda>(k, v). encode_basestring_ascii k @ str '': '' @ json_dumps v) ps) @ str ''}''"

section \<open>Effects\<close>

text \<open>
  A call either returns a value (\<open>Inr\<close>) or raises (\<open>Inl\<close>). The effects a claim can be
  about are recorded in order: calls of the \<open>logging\<close> functions (level and message; the
  arguments interpolated into a message template are left out), the commands handed to
  \<open>subprocess\<close>, the call of a reporting function, and \<open>logging.shutdown()\<close>.
\<close>

text \<open>The keyword arguments the wrapper passes to the decorated function:
  \<open>compiler\<close>, \<open>command\<close>, \<open>result\<close>, \<open>cc\<close>, \<open>cxx\<close>.\<close>

datatype report = Report json "pystr list" int json json

datatype message = Msg pystr | Str_of exn

datatype event =
    Log_debug message
  | Log_warning message
  | Log_error message
  | Log_exception message exn
  | Subprocess_call "pystr list"
  | Subprocess_check_output "pystr list" pystr
  | Function_call report
  | Shutdown

record pstate =
  logcfg :: logging
  events :: "event list"

definition emit :: "event \<Rightarrow> pstate \<Rightarrow> pstate" where
  "emit ev st = st\<lparr>events := events st @ [ev]\<rparr>"

text \<open>\<open>os.path.basename\<close> (posixpath): everything after the last slash.\<close>

definition basename :: "pystr \<Rightarrow> pystr" where
  "basename p = rev (takeWhile (\<lambda>c. c \<noteq> of_char CHR ''/'') (rev p))"

text \<open>
  \<open>logging.basicConfig(format=..., level=..., stream=...)\<close> does nothing when the root
  logger already has a handler; otherwise it installs one handler and sets the level.
\<close>

definition basicConfig :: "pystr \<Rightarrow> int \<Rightarrow> stream \<Rightarrow> logging \<Rightarrow> logging" where
  "basicConfig format level strm lg =
     (if root_handlers lg = []
      then lg\<lparr>root_level := level, root_handlers := [\<lparr>h_stream = strm, h_fmt = format\<rparr>]\<rparr>
      else lg)"

text \<open>\<open>logging.getLogger().isEnabledFor(level)\<close> for the root logger.\<close>

definition isEnabledFor :: "logging \<Rightarrow> int \<Rightarrow> bool" where
  "isEnabledFor lg level = (root_level lg \<le> level)"

section \<open>Process entry guard: \<open>command_entry_point\<close>\<close>

text \<open>
  The decorated function is a state transformer with an outcome; its own arguments are
  part of the closure. \<open>argv\<close> is \<open>sys.argv\<close>. The three handlers and the \<open>finally\<close>
  clause of the source are the branches of \<open>guard_outcome\<close>; an exception that no
  handler matches leaves the guard after \<open>finally\<close> has run.
\<close>

definition internal_error_hint :: "logging \<Rightarrow> pystr" where
  "internal_error_hint lg =
     (if isEnabledFor lg DEBUG
      then str ''Please report this bug and attach the output to the bug report''
      else str ''Please run this command again and turn on verbose mode (add '-vvvv' as argument).'')"

definition guard_outcome :: "(exn + int) \<times> pstate \<Rightarrow> (exn + int) \<times> pstate" where
  "guard_outcome r =
     (case r of
        (Inr v, st) \<Rightarrow> (Inr v, emit Shutdown st)
      | (Inl e, st) \<Rightarrow>
          if e = KeyboardInterrupt then
            (Inr 130, emit Shutdown (emit (Log_warning (Msg (str ''Keyboard interrupt''))) st))
          else if is_Exception e then
            (let st1 = emit (Log_exception (Msg (str ''Internal error.'')) e) st;
                 st2 = emit (Log_error (Msg (internal_error_hint (logcfg st1)))) st1
             in (Inr 64, emit Shutdown st2))
          else (Inl e, emit Shutdown st))"

definition command_entry_point ::
  "(pstate \<Rightarrow> (exn + int) \<times> pstate) \<Rightarrow> pystr list \<Rightarrow> pstate \<Rightarrow> (exn + int) \<times> pstate" where
  "command_entry_point function argv st =
     (let st1 = st\<lparr>logcfg := basicConfig (str ''%(name)s: %(message)s'') WARNING Stdout (logcfg st)\<rparr>
      in case argv of
           [] \<Rightarrow> guard_outcome (Inl IndexError, st1)
         | argv0 # _ \<Rightarrow>
             guard_outcome (function (st1\<lparr>logcfg := (logcfg st1)\<lparr>root_name := basename argv0\<rparr>\<rparr>)))"

section \<open>Required state keys: \<open>require\<close>\<close>

text \<open>
  \<open>opts\<close> is the state dictionary, \<open>name\<close> the wrapped function's \<open>__name__\<close>. The
  wrapper returns the function's value, or \<open>None\<close> after logging a caught exception.
\<close>

fun precondition :: "pystr list \<Rightarrow> pystr \<Rightarrow> (pystr \<rightharpoonup> 'v) \<Rightarrow> exn + unit" where
  "precondition [] name opts = Inr ()"
| "precondition (key # required) name opts =
     (if opts key = None then Inl (KeyError (key @ str '' not passed to '' @ name))
      else precondition required name opts)"

definition require ::
  "pystr list \<Rightarrow> pystr \<Rightarrow> ((pystr \<rightharpoonup> 'v) \<Rightarrow> 'c \<Rightarrow> pstate \<Rightarrow> (exn + 'r) \<times> pstate)
     \<Rightarrow> (pystr \<rightharpoonup> 'v) \<Rightarrow> 'c \<Rightarrow> pstate \<Rightarrow> (exn + 'r option) \<times> pstate" where
  "require required name function opts cont st =
     (case (case precondition required name opts of
              Inl e \<Rightarrow> (Inl e, st)
            | Inr u \<Rightarrow> function opts cont st) of
        (Inr v, st') \<Rightarrow> (Inr (Some v), st')
      | (Inl e, st') \<Rightarrow>
          if is_Exception e then (Inr None, emit (Log_error (Str_of e)) st')
          else (Inl e, st'))"

section \<open>Command runner: \<open>run_command\<close>\<close>

text \<open>
  \<open>bytes.decode('utf-8')\<close> of Python 3: strict decoding of the well-formed byte sequences
  of the Unicode standard (no overlong form, no surrogate, nothing above U+10FFFF);
  \<open>None\<close> stands for \<open>UnicodeDecodeError\<close>. The bytes are given by their values.
\<close>

definition continuation :: "nat \<Rightarrow> bool" where
  "continuation b = (0x80 \<le> b \<and> b \<le> 0xBF)"

fun utf8_decode :: "nat list \<Rightarrow> pystr option" where
  "utf8_decode [] = Some []"
| "utf8_decode (b0 # bs) =
     (if b0 < 0x80 then map_option ((#) b0) (utf8_decode bs)
      else if 0xC2 \<le> b0 \<and> b0 \<le> 0xDF then
        (case bs of
           b1 # r \<Rightarrow>
             if continuation b1
             then map_option ((#) ((b0 - 0xC0) * 64 + (b1 - 0x80))) (utf8_decode r)
             else None
         | _ \<Rightarrow> None)
      else if 0xE0 \<le> b0 \<and> b0 \<le> 0xEF then
        (case bs of
           b1 # b2 # r \<Rightarrow>
             if (if b0 = 0xE0 then 0xA0 else 0x80) \<le> b1
                \<and> b1 \<le> (if b0 = 0xED then 0x9F else 0xBF) \<and> continuation b2
             then map_option ((#) ((b0 - 0xE0) * 4096 + (b1 - 0x80) * 64 + (b2 - 0x80)))
                    (utf8_decode r)
             else None
         | _ \<Rightarrow> None)
      else if 0xF0 \<le> b0 \<and> b0 \<le> 0xF4 then
        (case bs of
           b1 # b2 # b3 # r \<Rightarrow>
             if (if b0 = 0xF0 then 0x90 else 0x80) \<le> b1
                \<and> b1 \<le> (if b0 = 0xF4 then 0x8F else 0xBF)
                \<and> continuation b2 \<and> continuation b3
             then map_option ((#) ((b0 - 0xF0) * 262144 + (b1 - 0x80) * 4096
                                   + (b2 - 0x80) * 64 + (b3 - 0x80)))
                    (utf8_decode r)
             else None
         | _ \<Rightarrow> None)
      else None)"

text \<open>
  \<open>str.splitlines()\<close>: the text is cut at every line boundary (\<open>\n\<close>, \<open>\r\<close>, \<open>\r\n\<close>,
  \<open>\v\<close>, \<open>\f\<close>, \<open>\x1c\<close>, \<open>\x1d\<close>, \<open>\x1e\<close>, \<open>\x85\<close>, U+2028, U+2029); the boundaries are
  dropped, and a boundary at the very end opens no further line.
\<close>

definition linebreak :: "nat \<Rightarrow> bool" where
  "linebreak c = (c \<in> {0x0A, 0x0B, 0x0C, 0x0D, 0x1C, 0x1D, 0x1E, 0x85, 0x2028, 0x2029})"

fun splitlines_from :: "pystr \<Rightarrow> pystr \<Rightarrow> pystr list" where
  "splitlines_from cur [] = (if cur = [] then [] else [cur])"
| "splitlines_from cur (c # cs) =
     (if c = 0x0D then
        (case cs of
           c' # r \<Rightarrow> if c' = 0x0A then cur # splitlines_from [] r
                     else cur # splitlines_from [] cs
         | [] \<Rightarrow> cur # splitlines_from [] cs)
      else if linebreak c then cur # splitlines_from [] cs
      else splitlines_from (cur @ [c]) cs)"

definition splitlines :: "pystr \<Rightarrow> pystr list" where
  "splitlines s = splitlines_from [] s"

text \<open>
  The operating system as \<open>run_command\<close> meets it: \<open>os.getcwd()\<close>, \<open>os.path.abspath\<close>, and
  what happens when a command is started in a directory with standard error merged into
  standard output: either it cannot be started (\<open>Inl\<close>), or it runs to its end with an
  exit status and the captured output.
\<close>

record os_env =
  os_getcwd :: "exn + pystr"
  os_abspath :: "pystr \<Rightarrow> exn + pystr"
  os_spawn :: "pystr list \<Rightarrow> pystr \<Rightarrow> exn + int \<times> cmd_output"

text \<open>\<open>subprocess.check_output\<close>: the output on exit status zero, \<open>CalledProcessError\<close>
  with the status and the output otherwise.\<close>

definition check_output :: "os_env \<Rightarrow> pystr list \<Rightarrow> pystr \<Rightarrow> exn + cmd_output" where
  "check_output os command directory =
     (case os_spawn os command directory of
        Inl e \<Rightarrow> Inl e
      | Inr (status, out) \<Rightarrow>
          if status = 0 then Inr out else Inl (CalledProcessError status (Captured out)))"

definition decode_when_needed :: "cmd_output \<Rightarrow> exn + pystr" where
  "decode_when_needed result =
     (case result of
        Bytes bs \<Rightarrow>
          (case utf8_decode (map unat bs) of
             None \<Rightarrow> Inl UnicodeDecodeError
           | Some t \<Rightarrow> Inr t)
      | Text t \<Rightarrow> Inr t)"

text \<open>
  \<open>run_command(command, cwd)\<close>. \<open>run_command_try\<close> is the body of the \<open>try\<close>;
  \<open>run_command\<close> adds the handler for \<open>CalledProcessError\<close>, which decodes and splits the
  exception's output and raises the exception again. A \<open>CalledProcessError\<close> whose output
  is already a list has neither \<open>decode\<close> nor \<open>splitlines\<close>.
\<close>

definition run_command_try ::
  "os_env \<Rightarrow> pystr list \<Rightarrow> pystr option \<Rightarrow> pstate \<Rightarrow> (exn + pystr list) \<times> pstate" where
  "run_command_try os command cwd st =
     (case (case cwd of
              None \<Rightarrow> os_getcwd os
            | Some d \<Rightarrow> if d = [] then os_getcwd os else os_abspath os d) of
        Inl e \<Rightarrow> (Inl e, st)
      | Inr directory \<Rightarrow>
          (let st1 = emit (Log_debug (Msg (str ''exec command %s in %s''))) st;
               st2 = emit (Subprocess_check_output command directory) st1
           in case check_output os command directory of
                Inl e \<Rightarrow> (Inl e, st2)
              | Inr out \<Rightarrow>
                  (case decode_when_needed out of
                     Inl e \<Rightarrow> (Inl e, st2)
                   | Inr t \<Rightarrow> (Inr (splitlines t), st2))))"

definition run_command ::
  "os_env \<Rightarrow> pystr list \<Rightarrow> pystr option \<Rightarrow> pstate \<Rightarrow> (exn + pystr list) \<times> pstate" where
  "run_command os command cwd st =
     (case run_command_try os command cwd st of
        (Inl (CalledProcessError status (Captured out)), st') \<Rightarrow>
          (case decode_when_needed out of
             Inl e \<Rightarrow> (Inl e, st')
           | Inr t \<Rightarrow> (Inl (CalledProcessError status (Lines (splitlines t))), st'))
      | (Inl (CalledProcessError status (Lines ls)), st') \<Rightarrow>
          (Inl (OtherException (str ''AttributeError'')), st')
      | r \<Rightarrow> r)"

text \<open>
  A Unicode scalar value: a code point up to U+10FFFF that is not a surrogate. Every
  printable character is one.
\<close>

definition unicode_scalar :: "nat \<Rightarrow> bool" where
  "unicode_scalar c = (c < 0x110000 \<and> \<not> (0xD800 \<le> c \<and> c \<le> 0xDFFF))"

section \<open>Wrapper configuration and compiler wrapper: \<open>wrapper_environment\<close>, \<open>wrapper_entry_point\<close>\<close>

definition ENVIRONMENT_KEY :: pystr where
  "ENVIRONMENT_KEY = str ''INTERCEPT_BUILD''"

text \<open>The attributes of \<open>args\<close> that \<open>wrapper_environment\<close> reads: the number of \<open>-v\<close> flags
  and the two compiler strings.\<close>

record wrapper_args =
  args_verbose :: int
  args_cc :: pystr
  args_cxx :: pystr

definition wrapper_environment :: "wrapper_args \<Rightarrow> (pystr \<rightharpoonup> pystr)" where
  "wrapper_environment args =
     [ENVIRONMENT_KEY \<mapsto>
        json_dumps (JObj [(str ''verbose'', JInt (args_verbose args)),
                          (str ''cc'', JStr (args_cc args)),
                          (str ''cxx'', JStr (args_cxx args))])]"

text \<open>
  \<open>parameters = json.loads(os.environ[ENVIRONMENT_KEY])\<close>: a missing variable raises
  \<open>KeyError\<close>, a value that is not JSON raises \<open>JSONDecodeError\<close>.
\<close>

definition load_parameters :: "(pystr \<rightharpoonup> pystr) \<Rightarrow> exn + json" where
  "load_parameters environ =
     (case environ ENVIRONMENT_KEY of
        None \<Rightarrow> Inl (KeyError ENVIRONMENT_KEY)
      | Some s \<Rightarrow> json_loads s)"

text \<open>
  \<open>parameters[key]\<close> with a string key on whatever \<open>json.loads\<close> returned: the last pair
  with that key of a \<open>dict\<close>, \<open>KeyError\<close> when the \<open>dict\<close> has none, \<open>TypeError\<close> on any
  other value.
\<close>

definition getitem :: "json \<Rightarrow> pystr \<Rightarrow> exn + json" where
  "getitem obj key =
     (case obj of
        JObj ps \<Rightarrow>
          (case map_of (rev ps) key of
             None \<Rightarrow> Inl (KeyError key)
           | Some v \<Rightarrow> Inr v)
      | _ \<Rightarrow> Inl TypeError)"

text \<open>
  \<open>re.match(r'(.+)c\+\+(.*)', wrapper_command)\<close>: the match starts at the first character;
  \<open>.\<close> is any character but a line feed; \<open>(.+)\<close> takes at least one character; \<open>(.*)\<close>
  takes what follows \<open>c++\<close> and may be empty. \<open>cxx_suffix\<close> is the match once \<open>(.+)\<close>
  has taken a character: \<open>c++\<close> is here, or \<open>(.+)\<close> takes one more.
\<close>

fun cxx_suffix :: "pystr \<Rightarrow> bool" where
  "cxx_suffix [] = False"
| "cxx_suffix (c # cs) = (startswith (c # cs) (str ''c++'') \<or> (c \<noteq> 0x0A \<and> cxx_suffix cs))"

definition re_match_cxx :: "pystr \<Rightarrow> bool" where
  "re_match_cxx wrapper_command =
     (case wrapper_command of
        [] \<Rightarrow> False
      | c # cs \<Rightarrow> c \<noteq> 0x0A \<and> cxx_suffix cs)"

text \<open>\<open>compiler = parameters['cxx'] if is_cxx else parameters['cc']\<close>\<close>

definition real_compiler :: "json \<Rightarrow> pystr \<Rightarrow> exn + json" where
  "real_compiler parameters wrapper_command =
     (if re_match_cxx wrapper_command then getitem parameters (str ''cxx'')
      else getitem parameters (str ''cc''))"

text \<open>
  Modelled from the spec: \<open>libscanbuild.shell.decode\<close>, which the wrapper imports and applies
  to the compiler string, is missing from the sources. The spec (4.5, step 3) builds the real
  command as \<open>[resolvedCompilerPath] + (all arguments the wrapper itself received)\<close>: the
  compiler string becomes the one head element of the command. A value that is not a string
  cannot be decoded.
\<close>

definition decode :: "json \<Rightarrow> exn + pystr list" where
  "decode compiler = (case compiler of JStr path \<Rightarrow> Inr [path] | _ \<Rightarrow> Inl TypeError)"

text \<open>
  What the wrapper process is given. \<open>w_decode\<close> is the \<open>decode\<close> the wrapper calls on
  the compiler string; the model of it above is \<open>decode\<close>, and the wrapper is defined
  for any. \<open>w_call\<close> is \<open>subprocess.call\<close>: the exit code of
  the command, or the exception raised when it cannot be run. \<open>w_float_verbosity\<close> is
  \<open>reconfigure_logging\<close> on a \<open>float\<close>, which needs floating point comparison.
\<close>

record world =
  w_environ :: "pystr \<rightharpoonup> pystr"
  w_argv :: "pystr list"
  w_decode :: "json \<Rightarrow> exn + pystr list"
  w_call :: "pystr list \<Rightarrow> exn + int"
  w_float_verbosity :: "pystr \<Rightarrow> logging \<Rightarrow> exn + logging"

text \<open>
  \<open>reconfigure_logging(verbose)\<close> on the value found under \<open>'verbose'\<close> (Python 3): an
  \<open>int\<close> or a \<open>bool\<close> is a level; \<open>None\<close>, a \<open>str\<close>, a \<open>list\<close> or a \<open>dict\<close> is not equal to
  0 and then fails in \<open>10 * verbose_level\<close> or in \<open>min\<close> with \<open>TypeError\<close>, before
  anything is changed.
\<close>

definition reconfigure_logging_value :: "world \<Rightarrow> json \<Rightarrow> logging \<Rightarrow> exn + logging" where
  "reconfigure_logging_value w verbose lg =
     (case verbose of
        JInt n \<Rightarrow> Inr (reconfigure_logging n lg)
      | JBool b \<Rightarrow> Inr (reconfigure_logging (if b then 1 else 0) lg)
      | JFloat f \<Rightarrow> w_float_verbosity w f lg
      | _ \<Rightarrow> Inl TypeError)"

text \<open>
  The wrapper up to and including the compilation (the statements before the \<open>try\<close>): the
  parameters, the chosen compiler, the command that was run and its exit code, or the
  exception that ended the wrapper.
\<close>

definition wrapper_compile ::
  "world \<Rightarrow> pstate \<Rightarrow> (exn + json \<times> json \<times> pystr list \<times> int) \<times> pstate" where
  "wrapper_compile w st =
     (case load_parameters (w_environ w) of
        Inl e \<Rightarrow> (Inl e, st)
      | Inr parameters \<Rightarrow>
     (case getitem parameters (str ''verbose'') of
        Inl e \<Rightarrow> (Inl e, st)
      | Inr verbose \<Rightarrow>
     (case reconfigure_logging_value w verbose (logcfg st) of
        Inl e \<Rightarrow> (Inl e, st)
      | Inr lg \<Rightarrow>
     (case w_argv w of
        [] \<Rightarrow> (Inl IndexError, st\<lparr>logcfg := lg\<rparr>)
      | argv0 # args \<Rightarrow>
     (case real_compiler parameters (basename argv0) of
        Inl e \<Rightarrow> (Inl e, st\<lparr>logcfg := lg\<rparr>)
      | Inr compiler \<Rightarrow>
     (case w_decode w compiler of
        Inl e \<Rightarrow> (Inl e, st\<lparr>logcfg := lg\<rparr>)
      | Inr tokens \<Rightarrow>
          (let command = tokens @ args;
               st1 = emit (Log_debug (Msg (str ''compilation: %s''))) (st\<lparr>logcfg := lg\<rparr>);
               st2 = emit (Subprocess_call command) st1
           in case w_call w command of
                Inl e \<Rightarrow> (Inl e, st2)
              | Inr result \<Rightarrow>
                  (Inr (parameters, compiler, command, result),
                   emit (Log_debug (Msg (str ''compilation exit code: %d''))) st2))))))))"

text \<open>
  The \<open>try\<close> statement: the arguments are evaluated, the decorated function is called and
  its value dropped; whatever is raised on the way is logged by the bare \<open>except\<close>.
\<close>

definition wrapper_report ::
  "(report \<Rightarrow> pstate \<Rightarrow> (exn + 'a) \<times> pstate) \<Rightarrow> json \<Rightarrow> json \<Rightarrow> pystr list \<Rightarrow> int
     \<Rightarrow> pstate \<Rightarrow> pstate" where
  "wrapper_report function parameters compiler command result st =
     (case (case getitem parameters (str ''cc'') of
              Inl e \<Rightarrow> (Inl e, st)
            | Inr cc \<Rightarrow>
                (case getitem parameters (str ''cxx'') of
                   Inl e \<Rightarrow> (Inl e, st)
                 | Inr cxx \<Rightarrow>
                     function (Report compiler command result cc cxx)
                       (emit (Function_call (Report compiler command result cc cxx)) st))) of
        (Inr v, st') \<Rightarrow> st'
      | (Inl e, st') \<Rightarrow>
          emit (Log_exception (Msg (str ''Compiler wrapper failed complete.'')) e) st')"

definition wrapper_entry_point ::
  "world \<Rightarrow> (report \<Rightarrow> pstate \<Rightarrow> (exn + 'a) \<times> pstate) \<Rightarrow> pstate \<Rightarrow> (exn + int) \<times> pstate" where
  "wrapper_entry_point w function st =
     (case wrapper_compile w st of
        (Inl e, st') \<Rightarrow> (Inl e, st')
      | (Inr (parameters, compiler, command, result), st') \<Rightarrow>
          (Inr result, wrapper_report function parameters compiler command result st'))"

section \<open>Concrete inputs used to run the model\<close>

text \<open>
  A Python process before any logging call: the root logger is named \<open>root\<close>, has level
  WARNING and no handler; nothing has happened yet.
\<close>

definition initial_state :: pstate where
  "initial_state =
     \<lparr>logcfg = \<lparr>root_level = WARNING, root_name = str ''root'', root_handlers = []\<rparr>,
      events = []\<rparr>"

text \<open>A callee that only returns a value, and one that only raises.\<close>

definition returning :: "'r \<Rightarrow> pstate \<Rightarrow> (exn + 'r) \<times> pstate" where
  "returning v st = (Inr v, st)"

definition raising :: "exn \<Rightarrow> pstate \<Rightarrow> (exn + 'r) \<times> pstate" where
  "raising e st = (Inl e, st)"

text \<open>The same two callees with the parameters of a \<open>require\<close>-wrapped function.\<close>

definition returning_step :: "'r \<Rightarrow> (pystr \<rightharpoonup> 'v) \<Rightarrow> 'c \<Rightarrow> pstate \<Rightarrow> (exn + 'r) \<times> pstate" where
  "returning_step v opts cont st = (Inr v, st)"

definition raising_step :: "exn \<Rightarrow> (pystr \<rightharpoonup> 'v) \<Rightarrow> 'c \<Rightarrow> pstate \<Rightarrow> (exn + 'r) \<times> pstate" where
  "raising_step e opts cont st = (Inl e, st)"

text \<open>An operating system on which every command can be started and ends with the given
  exit status and output.\<close>

definition os_with :: "int \<times> cmd_output \<Rightarrow> os_env" where
  "os_with result =
     \<lparr>os_getcwd = Inr (str ''/build''), os_abspath = Inr, os_spawn = (\<lambda>command directory. Inr result)\<rparr>"

text \<open>
  A wrapper process: the environment, \<open>sys.argv\<close>, the decoder, and a real compiler that
  ends with the given exit code whatever the command.
\<close>

definition wrapper_world ::
  "(pystr \<rightharpoonup> pystr) \<Rightarrow> pystr list \<Rightarrow> (json \<Rightarrow> exn + pystr list) \<Rightarrow> int \<Rightarrow> world" where
  "wrapper_world environ argv decoder code =
     \<lparr>w_environ = environ, w_argv = argv, w_decode = decoder,
      w_call = (\<lambda>command. Inr code),
      w_float_verbosity = (\<lambda>f lg. Inl TypeError)\<rparr>"

text \<open>A reporting function that does nothing, and one that fails.\<close>

definition report_nothing :: "report \<Rightarrow> pstate \<Rightarrow> (exn + unit) \<times> pstate" where
  "report_nothing r st = (Inr (), st)"

definition report_failing :: "exn \<Rightarrow> report \<Rightarrow> pstate \<Rightarrow> (exn + unit) \<times> pstate" where
  "report_failing e r st = (Inl e, st)"

text \<open>
  The environment of a build whose configuration lacks the C++ compiler: the transport
  value is \<open>json.dumps({'verbose': 0, 'cc': 'gcc'})\<close>.
\<close>

definition environment_without_cxx :: "pystr \<rightharpoonup> pystr" where
  "environment_without_cxx =
     [ENVIRONMENT_KEY \<mapsto>
        json_dumps (JObj [(str ''verbose'', JInt 0), (str ''cc'', JStr (str ''gcc''))])]"

section \<open>Properties of the duplicate filter\<close>

lemma feed_predicate:
  "length (fst (feed (predicate h) st xs)) = length xs
   \<and> snd (feed (predicate h) st xs) = st \<union> h ` set xs
   \<and> (\<forall>i<length xs. fst (feed (predicate h) st xs) ! i
          = (h (xs ! i) \<in> st \<union> h ` set (take i xs)))"
proof (induction xs arbitrary: st)
  case Nil
  show ?case by simp
next
  case (Cons x xs)
  obtain r st' where p: "predicate h x st = (r, st')" by (cases "predicate h x st")
  then have r: "r = (h x \<in> st)" and st': "st' = insert (h x) st"
    by (auto simp: predicate_def Let_def split: if_splits)
  obtain rs st'' where f: "feed (predicate h) st' xs = (rs, st'')"
    by (cases "feed (predicate h) st' xs")
  from Cons.IH [of st'] f have len: "length rs = length xs"
    and fin: "st'' = st' \<union> h ` set xs"
    and nth: "\<forall>i<length xs. rs ! i = (h (xs ! i) \<in> st' \<union> h ` set (take i xs))"
    by simp_all
  have whole: "feed (predicate h) st (x # xs) = (r # rs, st'')"
    using p f by simp
  have "\<forall>i<length (x # xs). (r # rs) ! i = (h ((x # xs) ! i) \<in> st \<union> h ` set (take i (x # xs)))"
  proof (intro allI impI)
    fix i assume i: "i < length (x # xs)"
    show "(r # rs) ! i = (h ((x # xs) ! i) \<in> st \<union> h ` set (take i (x # xs)))"
    proof (cases i)
      case 0
      then show ?thesis using r by simp
    next
      case (Suc k)
      with i have "k < length xs" by simp
      with nth have "rs ! k = (h (xs ! k) \<in> st' \<union> h ` set (take k xs))" by blast
      then show ?thesis using Suc st' by auto
    qed
  qed
  with len fin st' show ?case unfolding whole by auto
qed

lemma in_image_take:
  assumes "i \<le> length xs"
  shows "(y \<in> h ` set (take i xs)) = (\<exists>j<i. h (xs ! j) = y)"
proof
  assume "y \<in> h ` set (take i xs)"
  then obtain x where x: "x \<in> set (take i xs)" "y = h x" by auto
  then obtain j where j: "j < length (take i xs)" "take i xs ! j = x"
    by (auto simp: in_set_conv_nth)
  with assms have "j < i" "xs ! j = x" by auto
  with x show "\<exists>j<i. h (xs ! j) = y" by auto
next
  assume "\<exists>j<i. h (xs ! j) = y"
  then obtain j where j: "j < i" "h (xs ! j) = y" by auto
  with assms have "take i xs ! j = xs ! j" "j < length (take i xs)" by auto
  then have "xs ! j \<in> set (take i xs)" by (metis nth_mem)
  with j show "y \<in> h ` set (take i xs)" by auto
qed

text \<open>
  C5. Feeding any finite sequence to the predicate made by \<open>duplicate_check\<close>: the answer
  at position \<open>i\<close> is \<open>True\<close> exactly when an earlier entry has the same hash and
  \<open>False\<close> exactly when none has; a \<open>True\<close> answer leaves the state as it was, a
  \<open>False\<close> answer inserts the hash; the state never loses an element, neither in one call
  nor along the sequence; and for \<open>A, A, B\<close> with different hashes of \<open>A\<close> and \<open>B\<close> the
  answers are \<open>False, True, False\<close>.
\<close>

theorem duplicate_check_first_occurrence:
  fixes h :: "'a \<Rightarrow> 'h"
  shows "length (fst (seen_sequence h xs)) = length xs
    \<and> (\<forall>i<length xs. fst (seen_sequence h xs) ! i = (\<exists>j<i. h (xs ! j) = h (xs ! i)))
    \<and> snd (seen_sequence h xs) = h ` set xs
    \<and> (\<forall>e st. fst (predicate h e st) = (h e \<in> st)
          \<and> (h e \<in> st \<longrightarrow> snd (predicate h e st) = st)
          \<and> (h e \<notin> st \<longrightarrow> snd (predicate h e st) = insert (h e) st)
          \<and> st \<subseteq> snd (predicate h e st))
    \<and> snd (seen_sequence h xs) \<subseteq> snd (seen_sequence h (xs @ ys))
    \<and> (h A \<noteq> h B \<longrightarrow> fst (seen_sequence h [A, A, B]) = [False, True, False])"
proof -
  have run: "seen_sequence h zs = feed (predicate h) {} zs" for zs
    by (simp add: seen_sequence_def duplicate_check_def)
  have len: "length (fst (seen_sequence h xs)) = length xs"
    using feed_predicate [of h "{}" xs] by (simp add: run)
  have nth: "\<forall>i<length xs. fst (seen_sequence h xs) ! i = (\<exists>j<i. h (xs ! j) = h (xs ! i))"
    using feed_predicate [of h "{}" xs] by (simp add: run in_image_take)
  have st: "snd (seen_sequence h zs) = h ` set zs" for zs
    using feed_predicate [of h "{}" zs] by (simp add: run)
  have step: "\<forall>e st. fst (predicate h e st) = (h e \<in> st)
          \<and> (h e \<in> st \<longrightarrow> snd (predicate h e st) = st)
          \<and> (h e \<notin> st \<longrightarrow> snd (predicate h e st) = insert (h e) st)
          \<and> st \<subseteq> snd (predicate h e st)"
    by (auto simp: predicate_def Let_def)
  have mono: "snd (seen_sequence h xs) \<subseteq> snd (seen_sequence h (xs @ ys))"
    by (auto simp: st)
  have aab: "h A \<noteq> h B \<longrightarrow> fst (seen_sequence h [A, A, B]) = [False, True, False]"
    by (auto simp: seen_sequence_def duplicate_check_def predicate_def Let_def)
  from len nth st [of xs] step mono aab show ?thesis by blast
qed

theorem duplicate_check_first_occurrence_witness:
  "fst (seen_sequence (\<lambda>n::nat. n mod 10) [3, 13, 4]) ! 1 = True
   \<and> fst (seen_sequence (\<lambda>n::nat. n mod 10) [3, 13, 4]) ! 0 = False
   \<and> snd (seen_sequence (\<lambda>n::nat. n mod 10) [3, 13, 4]) = {3, 4}
   \<and> fst (seen_sequence (\<lambda>n::nat. n mod 10) [3, 3, 4]) = [False, True, False]"
proof -
  let ?h = "\<lambda>n::nat. n mod 10"
  let ?xs = "[3, 13, 4::nat]"
  note t = duplicate_check_first_occurrence [of ?h ?xs "[]" 3 4]
  note nth = t [THEN conjunct2, THEN conjunct1]
  note img = t [THEN conjunct2, THEN conjunct2, THEN conjunct1]
  note aab = t [THEN conjunct2, THEN conjunct2, THEN conjunct2, THEN conjunct2, THEN conjunct2]
  have "fst (seen_sequence ?h ?xs) ! 1 = (\<exists>j<1. ?h (?xs ! j) = ?h (?xs ! 1))"
    using nth [THEN spec, of 1] by simp
  then have one: "fst (seen_sequence ?h ?xs) ! 1 = True" by simp
  have "fst (seen_sequence ?h ?xs) ! 0 = (\<exists>j<0. ?h (?xs ! j) = ?h (?xs ! 0))"
    using nth [THEN spec, of 0] by simp
  then have two: "fst (seen_sequence ?h ?xs) ! 0 = False" by simp
  have st: "snd (seen_sequence ?h ?xs) = {3, 4}"
    using img by simp
  have three: "fst (seen_sequence ?h [3, 3, 4]) = [False, True, False]"
    using aab by simp
  show ?thesis
    by (intro conjI one two st three)
qed

section \<open>Properties of the verbosity resolver\<close>

text \<open>
  C7. For every non-negative level: level 0 leaves the logging configuration as it was;
  for a level of 1 or more the root threshold is \<open>max NOTSET (WARNING - 10 * level)\<close>
  (ten units down per level from WARNING, floored at NOTSET, the level that lets every
  record through), exactly one handler is installed, writing to standard output, and its
  format template contains \<open>%(funcName)s\<close> exactly when the level is above 3.
\<close>

theorem reconfigure_logging_threshold:
  assumes "0 \<le> v"
  shows "(v = 0 \<longrightarrow> reconfigure_logging v lg = lg)
    \<and> (1 \<le> v \<longrightarrow>
          root_level (reconfigure_logging v lg) = max NOTSET (WARNING - 10 * v)
          \<and> root_name (reconfigure_logging v lg) = root_name lg
          \<and> (\<exists>f. root_handlers (reconfigure_logging v lg) = [\<lparr>h_stream = Stdout, h_fmt = f\<rparr>]
                \<and> contains f (str ''%(funcName)s'') = (3 < v)))"
proof -
  have zero: "v = 0 \<longrightarrow> reconfigure_logging v lg = lg"
    by (simp add: reconfigure_logging_def)
  have short: "\<not> contains (str ''%(name)s: %(levelname)s: %(message)s'') (str ''%(funcName)s'')"
    by (simp add: str_def)
  have long: "contains (str ''%(name)s: %(levelname)s: %(funcName)s: %(message)s'') (str ''%(funcName)s'')"
    by (simp add: str_def)
  have pos: "1 \<le> v \<longrightarrow>
          root_level (reconfigure_logging v lg) = max NOTSET (WARNING - 10 * v)
          \<and> root_name (reconfigure_logging v lg) = root_name lg
          \<and> (\<exists>f. root_handlers (reconfigure_logging v lg) = [\<lparr>h_stream = Stdout, h_fmt = f\<rparr>]
                \<and> contains f (str ''%(funcName)s'') = (3 < v))"
  proof
    assume v: "1 \<le> v"
    show "root_level (reconfigure_logging v lg) = max NOTSET (WARNING - 10 * v)
          \<and> root_name (reconfigure_logging v lg) = root_name lg
          \<and> (\<exists>f. root_handlers (reconfigure_logging v lg) = [\<lparr>h_stream = Stdout, h_fmt = f\<rparr>]
                \<and> contains f (str ''%(funcName)s'') = (3 < v))"
    proof (cases "v \<le> 3")
      case True
      with v short show ?thesis
        by (simp add: reconfigure_logging_def Let_def NOTSET_def WARNING_def)
    next
      case False
      with v long show ?thesis
        by (simp add: reconfigure_logging_def Let_def NOTSET_def WARNING_def)
    qed
  qed
  from zero pos show ?thesis by blast
qed

theorem reconfigure_logging_threshold_witness:
  "reconfigure_logging 0 \<lparr>root_level = 30, root_name = str ''root'', root_handlers = []\<rparr>
     = \<lparr>root_level = 30, root_name = str ''root'', root_handlers = []\<rparr>
   \<and> root_level (reconfigure_logging 2 \<lparr>root_level = 30, root_name = str ''root'', root_handlers = []\<rparr>) = 10
   \<and> root_level (reconfigure_logging 4 \<lparr>root_level = 30, root_name = str ''root'', root_handlers = []\<rparr>) = 0"
proof -
  let ?lg = "\<lparr>root_level = 30, root_name = str ''root'', root_handlers = []\<rparr>"
  have a: "reconfigure_logging 0 ?lg = ?lg"
    using reconfigure_logging_threshold [of 0 ?lg] by simp
  have b: "root_level (reconfigure_logging 2 ?lg) = 10"
    using reconfigure_logging_threshold [of 2 ?lg] by (simp add: NOTSET_def WARNING_def)
  have c: "root_level (reconfigure_logging 4 ?lg) = 0"
    using reconfigure_logging_threshold [of 4 ?lg] by (simp add: NOTSET_def WARNING_def)
  from a b c show ?thesis by blast
qed

section \<open>Properties of the process entry guard\<close>

lemma guard_outcome_shutdown: "events (snd (guard_outcome r)) \<noteq> []
    \<and> last (events (snd (guard_outcome r))) = Shutdown"
  by (cases r) (auto simp: guard_outcome_def emit_def Let_def split: sum.splits)

text \<open>
  C6 as stated fails: an exception that is neither \<open>KeyboardInterrupt\<close> nor an instance of
  \<open>Exception\<close> is not turned into exit code 64. A function that raises \<open>SystemExit(2)\<close>
  leaves the guard with that exception.
\<close>

theorem command_entry_point_system_exit_counterexample:
  "fst (command_entry_point (raising (SystemExit 2)) [str ''scan-build''] initial_state)
     = Inl (SystemExit 2)"
  by (simp add: command_entry_point_def guard_outcome_def raising_def Let_def)

text \<open>
  C6, amended. Let the guard run a function, with \<open>sys.argv = program # rest\<close>. If the
  function returns \<open>v\<close>, the guard returns \<open>v\<close> (so 0 gives 0). If it raises
  \<open>KeyboardInterrupt\<close>, the guard logs a warning and returns 130. If it raises an instance of
  \<open>Exception\<close>, the guard logs the exception and a hint and returns 64. Any other exception
  (\<open>SystemExit\<close>, \<open>GeneratorExit\<close>, another class outside \<open>Exception\<close>) leaves the guard
  uncaught. On each of these paths, and for every function and every \<open>argv\<close>,
  \<open>logging.shutdown()\<close> is the last thing the guard does.
\<close>

theorem command_entry_point_exit_codes:
  assumes run: "func (st\<lparr>logcfg := (basicConfig (str ''%(name)s: %(message)s'') WARNING Stdout
                    (logcfg st))\<lparr>root_name := basename program\<rparr>\<rparr>) = (r, st')"
  shows "(r = Inr v \<longrightarrow>
            command_entry_point func (program # rest) st = (Inr v, emit Shutdown st'))
    \<and> (r = Inl KeyboardInterrupt \<longrightarrow>
            command_entry_point func (program # rest) st
              = (Inr 130, emit Shutdown (emit (Log_warning (Msg (str ''Keyboard interrupt''))) st')))
    \<and> (r = Inl e \<and> is_Exception e \<longrightarrow>
            command_entry_point func (program # rest) st
              = (Inr 64, emit Shutdown (emit (Log_error (Msg (internal_error_hint (logcfg st'))))
                  (emit (Log_exception (Msg (str ''Internal error.'')) e) st'))))
    \<and> (r = Inl e \<and> e \<noteq> KeyboardInterrupt \<and> \<not> is_Exception e \<longrightarrow>
            command_entry_point func (program # rest) st = (Inl e, emit Shutdown st'))
    \<and> last (events (snd (command_entry_point func (program # rest) st))) = Shutdown
    \<and> last (events (snd (command_entry_point g argv st))) = Shutdown"
proof -
  have unfold: "command_entry_point func (program # rest) st = guard_outcome (r, st')"
    using run by (simp add: command_entry_point_def Let_def)
  have ret: "r = Inr v \<longrightarrow>
      command_entry_point func (program # rest) st = (Inr v, emit Shutdown st')"
    by (simp add: unfold guard_outcome_def)
  have intr: "r = Inl KeyboardInterrupt \<longrightarrow>
      command_entry_point func (program # rest) st
        = (Inr 130, emit Shutdown (emit (Log_warning (Msg (str ''Keyboard interrupt''))) st'))"
    by (simp add: unfold guard_outcome_def)
  have err: "r = Inl e \<and> is_Exception e \<longrightarrow>
      command_entry_point func (program # rest) st
        = (Inr 64, emit Shutdown (emit (Log_error (Msg (internal_error_hint (logcfg st'))))
            (emit (Log_exception (Msg (str ''Internal error.'')) e) st')))"
  proof
    assume a: "r = Inl e \<and> is_Exception e"
    then have ne: "e \<noteq> KeyboardInterrupt" by auto
    have cfg: "logcfg (emit (Log_exception (Msg (str ''Internal error.'')) e) st') = logcfg st'"
      by (simp add: emit_def)
    from a ne show "command_entry_point func (program # rest) st
        = (Inr 64, emit Shutdown (emit (Log_error (Msg (internal_error_hint (logcfg st'))))
            (emit (Log_exception (Msg (str ''Internal error.'')) e) st')))"
      by (simp add: unfold guard_outcome_def Let_def cfg)
  qed
  have pass: "r = Inl e \<and> e \<noteq> KeyboardInterrupt \<and> \<not> is_Exception e \<longrightarrow>
      command_entry_point func (program # rest) st = (Inl e, emit Shutdown st')"
    by (simp add: unfold guard_outcome_def)
  have fin: "last (events (snd (command_entry_point func (program # rest) st))) = Shutdown"
    by (simp add: unfold guard_outcome_shutdown)
  have fin_any: "last (events (snd (command_entry_point g argv st))) = Shutdown"
    by (cases argv) (simp_all add: command_entry_point_def Let_def guard_outcome_shutdown)
  show ?thesis
    by (intro conjI ret intr err pass fin fin_any)
qed

theorem command_entry_point_exit_codes_witness:
  "fst (command_entry_point (returning 0) [str ''scan-build''] initial_state) = Inr 0
   \<and> fst (command_entry_point (raising KeyboardInterrupt) [str ''scan-build''] initial_state) = Inr 130
   \<and> fst (command_entry_point (raising (OtherException (str ''boom''))) [str ''scan-build'']
        initial_state) = Inr 64
   \<and> last (events (snd (command_entry_point (raising (SystemExit 2)) [str ''scan-build'']
        initial_state))) = Shutdown"
proof -
  let ?prog = "str ''scan-build''"
  let ?st = "initial_state\<lparr>logcfg := (basicConfig (str ''%(name)s: %(message)s'') WARNING Stdout
                    (logcfg initial_state))\<lparr>root_name := basename ?prog\<rparr>\<rparr>"
  have r0: "returning 0 ?st = (Inr 0, ?st)" by (simp add: returning_def)
  have a: "fst (command_entry_point (returning 0) [?prog] initial_state) = Inr 0"
    using command_entry_point_exit_codes [where func = "returning 0" and st = initial_state
        and program = ?prog and r = "Inr 0" and st' = ?st and v = 0 and rest = "[]", OF r0]
    by simp
  have r1: "raising KeyboardInterrupt ?st = (Inl KeyboardInterrupt :: exn + int, ?st)"
    by (simp add: raising_def)
  have b: "fst (command_entry_point (raising KeyboardInterrupt) [?prog] initial_state) = Inr 130"
    using command_entry_point_exit_codes [where func = "raising KeyboardInterrupt"
        and st = initial_state and program = ?prog and r = "Inl KeyboardInterrupt"
        and st' = ?st and rest = "[]", OF r1]
    by simp
  have r2: "raising (OtherException (str ''boom'')) ?st
      = (Inl (OtherException (str ''boom'')) :: exn + int, ?st)"
    by (simp add: raising_def)
  have c: "fst (command_entry_point (raising (OtherException (str ''boom''))) [?prog]
      initial_state) = Inr 64"
    using command_entry_point_exit_codes [where func = "raising (OtherException (str ''boom''))"
        and st = initial_state and program = ?prog and r = "Inl (OtherException (str ''boom''))"
        and st' = ?st and rest = "[]" and e = "OtherException (str ''boom'')", OF r2]
    by simp
  have r3: "raising (SystemExit 2) ?st = (Inl (SystemExit 2) :: exn + int, ?st)"
    by (simp add: raising_def)
  have d: "last (events (snd (command_entry_point (raising (SystemExit 2)) [?prog]
      initial_state))) = Shutdown"
    using command_entry_point_exit_codes [where func = "raising (SystemExit 2)"
        and st = initial_state and program = ?prog and r = "Inl (SystemExit 2)"
        and st' = ?st and rest = "[]", OF r3, THEN conjunct2, THEN conjunct2, THEN conjunct2,
        THEN conjunct2, THEN conjunct1]
    by simp
  show ?thesis
    by (intro conjI a b c d)
qed

section \<open>Properties of \<open>require\<close>\<close>

lemma precondition_ok:
  "(precondition required name opts = Inr ()) = (\<forall>key\<in>set required. opts key \<noteq> None)"
  by (induction required) auto

lemma precondition_missing:
  "\<exists>key\<in>set required. opts key = None \<Longrightarrow>
   \<exists>key\<in>set required. opts key = None
      \<and> precondition required name opts = Inl (KeyError (key @ str '' not passed to '' @ name))"
  by (induction required) auto

text \<open>
  C10 as stated fails in its last part: a caller can observe an exception from a
  \<open>require\<close>-wrapped function. With every required key present, a wrapped function that
  raises \<open>KeyboardInterrupt\<close> makes the wrapper raise it too.
\<close>

theorem require_keyboard_interrupt_counterexample:
  "fst (require [str ''file''] (str ''run_analyzer'') (raising_step KeyboardInterrupt)
          (map_of [(str ''file'', str ''a.c'')]) () initial_state)
     = (Inl KeyboardInterrupt :: exn + unit option)"
  by (simp add: require_def raising_step_def str_def)

text \<open>
  C10, amended. When a required key is missing from \<open>opts\<close>, the wrapper returns \<open>None\<close>
  and logs the \<open>KeyError\<close> naming a missing key; its result and the state it leaves do not
  depend on the wrapped function, which is not called. When every required key is present,
  the wrapped function runs: its value is returned; an exception it raises that is an
  instance of \<open>Exception\<close> is logged and turned into \<open>None\<close>; an exception outside
  \<open>Exception\<close> (\<open>KeyboardInterrupt\<close>, \<open>SystemExit\<close>, ...) is not caught and reaches the
  caller.
\<close>

theorem require_outcomes:
  "((\<exists>key\<in>set required. opts key = None) \<longrightarrow>
      (\<exists>key\<in>set required. opts key = None
         \<and> (\<forall>g. require required name g opts cont st
               = (Inr None, emit (Log_error (Str_of (KeyError (key @ str '' not passed to '' @ name)))) st))))
   \<and> ((\<forall>key\<in>set required. opts key \<noteq> None) \<and> func opts cont st = (Inr v, st') \<longrightarrow>
        require required name func opts cont st = (Inr (Some v), st'))
   \<and> ((\<forall>key\<in>set required. opts key \<noteq> None) \<and> func opts cont st = (Inl e, st')
        \<and> is_Exception e \<longrightarrow>
        require required name func opts cont st = (Inr None, emit (Log_error (Str_of e)) st'))
   \<and> ((\<forall>key\<in>set required. opts key \<noteq> None) \<and> func opts cont st = (Inl e, st')
        \<and> \<not> is_Exception e \<longrightarrow>
        require required name func opts cont st = (Inl e, st'))"
proof -
  have missing: "(\<exists>key\<in>set required. opts key = None) \<longrightarrow>
      (\<exists>key\<in>set required. opts key = None
         \<and> (\<forall>g. require required name g opts cont st
               = (Inr None, emit (Log_error (Str_of (KeyError (key @ str '' not passed to '' @ name)))) st)))"
  proof
    assume "\<exists>key\<in>set required. opts key = None"
    from precondition_missing [OF this, of name]
    obtain key where k: "key \<in> set required" "opts key = None"
      "precondition required name opts = Inl (KeyError (key @ str '' not passed to '' @ name))"
      by blast
    have "\<forall>g. require required name g opts cont st
        = (Inr None, emit (Log_error (Str_of (KeyError (key @ str '' not passed to '' @ name)))) st)"
      by (simp add: require_def k(3))
    with k(1,2) show "\<exists>key\<in>set required. opts key = None
         \<and> (\<forall>g. require required name g opts cont st
               = (Inr None, emit (Log_error (Str_of (KeyError (key @ str '' not passed to '' @ name)))) st))"
      by blast
  qed
  have val: "(\<forall>key\<in>set required. opts key \<noteq> None) \<and> func opts cont st = (Inr v, st') \<longrightarrow>
        require required name func opts cont st = (Inr (Some v), st')"
  proof (intro impI, elim conjE)
    assume "\<forall>key\<in>set required. opts key \<noteq> None"
    then have pre: "precondition required name opts = Inr ()"
      by (simp only: precondition_ok)
    assume "func opts cont st = (Inr v, st')"
    with pre show "require required name func opts cont st = (Inr (Some v), st')"
      by (simp add: require_def)
  qed
  have caught: "(\<forall>key\<in>set required. opts key \<noteq> None) \<and> func opts cont st = (Inl e, st')
        \<and> is_Exception e \<longrightarrow>
        require required name func opts cont st = (Inr None, emit (Log_error (Str_of e)) st')"
  proof (intro impI, elim conjE)
    assume "\<forall>key\<in>set required. opts key \<noteq> None"
    then have pre: "precondition required name opts = Inr ()"
      by (simp only: precondition_ok)
    assume "func opts cont st = (Inl e, st')" and "is_Exception e"
    with pre show "require required name func opts cont st = (Inr None, emit (Log_error (Str_of e)) st')"
      by (simp add: require_def)
  qed
  have passed: "(\<forall>key\<in>set required. opts key \<noteq> None) \<and> func opts cont st = (Inl e, st')
        \<and> \<not> is_Exception e \<longrightarrow>
        require required name func opts cont st = (Inl e, st')"
  proof (intro impI, elim conjE)
    assume "\<forall>key\<in>set required. opts key \<noteq> None"
    then have pre: "precondition required name opts = Inr ()"
      by (simp only: precondition_ok)
    assume "func opts cont st = (Inl e, st')" and "\<not> is_Exception e"
    with pre show "require required name func opts cont st = (Inl e, st')"
      by (simp add: require_def)
  qed
  show ?thesis
    by (intro conjI missing val caught passed)
qed

theorem require_outcomes_witness:
  "require [str ''file''] (str ''run_analyzer'') (returning_step (7::int))
       (map_of [] :: pystr \<rightharpoonup> pystr) () initial_state
     = (Inr None, emit (Log_error (Str_of (KeyError
          (str ''file'' @ str '' not passed to '' @ str ''run_analyzer'')))) initial_state)
   \<and> require [str ''file''] (str ''run_analyzer'') (returning_step (7::int))
       (map_of [(str ''file'', str ''a.c'')]) () initial_state = (Inr (Some 7), initial_state)
   \<and> require [str ''file''] (str ''run_analyzer'') (raising_step (OtherException (str ''boom'')))
       (map_of [(str ''file'', str ''a.c'')]) () initial_state
     = (Inr (None :: int option),
        emit (Log_error (Str_of (OtherException (str ''boom'')))) initial_state)"
proof -
  let ?req = "[str ''file'']"
  let ?name = "str ''run_analyzer''"
  let ?opts = "map_of [(str ''file'', str ''a.c'')] :: pystr \<rightharpoonup> pystr"
  let ?none = "map_of [] :: pystr \<rightharpoonup> pystr"
  have "\<exists>key\<in>set ?req. ?none key = None" by simp
  with require_outcomes [where required = ?req and opts = ?none and name = ?name
      and cont = "()" and st = initial_state, THEN conjunct1]
  have "\<exists>key\<in>set ?req. ?none key = None
         \<and> (\<forall>g :: (pystr \<rightharpoonup> pystr) \<Rightarrow> unit \<Rightarrow> pstate \<Rightarrow> (exn + int) \<times> pstate.
              require ?req ?name g ?none () initial_state
               = (Inr None, emit (Log_error (Str_of (KeyError (key @ str '' not passed to '' @ ?name))))
                    initial_state))"
    by blast
  then have a: "require ?req ?name (returning_step (7::int)) ?none () initial_state
     = (Inr None, emit (Log_error (Str_of (KeyError
          (str ''file'' @ str '' not passed to '' @ ?name)))) initial_state)"
    by simp
  have present: "\<forall>key\<in>set ?req. ?opts key \<noteq> None" by simp
  have r1: "returning_step (7::int) ?opts () initial_state = (Inr 7, initial_state)"
    by (simp add: returning_step_def)
  have b: "require ?req ?name (returning_step (7::int)) ?opts () initial_state
      = (Inr (Some 7), initial_state)"
    using require_outcomes [where required = ?req and opts = ?opts and name = ?name
      and cont = "()" and st = initial_state and func = "returning_step 7" and v = 7
      and st' = initial_state, THEN conjunct2, THEN conjunct1] present r1
    by blast
  have r2: "raising_step (OtherException (str ''boom'')) ?opts () initial_state
      = (Inl (OtherException (str ''boom'')) :: exn + int, initial_state)"
    by (simp add: raising_step_def)
  have ex: "is_Exception (OtherException (str ''boom''))" by simp
  have c: "require ?req ?name (raising_step (OtherException (str ''boom''))) ?opts () initial_state
      = (Inr (None :: int option),
         emit (Log_error (Str_of (OtherException (str ''boom'')))) initial_state)"
    using require_outcomes [where required = ?req and opts = ?opts and name = ?name
      and cont = "()" and st = initial_state
      and func = "raising_step (OtherException (str ''boom''))"
      and e = "OtherException (str ''boom'')"
      and st' = initial_state, THEN conjunct2, THEN conjunct2, THEN conjunct1] present r2 ex
    by blast
  show ?thesis
    by (intro conjI a b c)
qed

section \<open>Properties of the command runner\<close>

lemma decode_when_needed_error: "decode_when_needed out = Inl e \<Longrightarrow> e = UnicodeDecodeError"
  by (auto simp: decode_when_needed_def split: cmd_output.splits option.splits)

text \<open>
  C8 as stated fails: a command can exit with status zero and \<open>run_command\<close> still raises.
  When the captured output is the single byte \<open>0xFF\<close>, which is not UTF-8, decoding raises
  \<open>UnicodeDecodeError\<close> and no list of lines is returned.
\<close>

theorem run_command_undecodable_counterexample:
  "fst (run_command (os_with (0, Bytes [0xFF])) [str ''cc'', str ''--version''] None initial_state)
     = Inl UnicodeDecodeError"
  by (simp add: run_command_def run_command_try_def check_output_def decode_when_needed_def
      os_with_def Let_def)

text \<open>
  C8, amended. Take a command that is started in the resolved working directory and ends
  with an exit status and a captured combined output. If the output is text, or bytes that
  are valid UTF-8, then \<open>run_command\<close> returns the decoded output split into lines exactly
  when the status is zero, and raises exactly when it is not, the \<open>CalledProcessError\<close>
  carrying that status and the decoded output split into lines. If the output is bytes
  that are not valid UTF-8, \<open>run_command\<close> raises \<open>UnicodeDecodeError\<close> whatever the status.
\<close>

theorem run_command_outcomes:
  assumes dir: "(case cwd of None \<Rightarrow> os_getcwd os
                 | Some d \<Rightarrow> if d = [] then os_getcwd os else os_abspath os d) = Inr directory"
    and spawned: "os_spawn os command directory = Inr (status, out)"
  shows "(decode_when_needed out = Inr t \<longrightarrow>
            (status = 0 \<longrightarrow> fst (run_command os command cwd st) = Inr (splitlines t))
          \<and> (status \<noteq> 0 \<longrightarrow> fst (run_command os command cwd st)
                 = Inl (CalledProcessError status (Lines (splitlines t))))
          \<and> ((\<exists>ls. fst (run_command os command cwd st) = Inr ls) = (status = 0))
          \<and> ((\<exists>e. fst (run_command os command cwd st) = Inl e) = (status \<noteq> 0)))
    \<and> (decode_when_needed out = Inl e \<longrightarrow>
          fst (run_command os command cwd st) = Inl UnicodeDecodeError)"
proof -
  have zero: "status = 0 \<Longrightarrow> decode_when_needed out = Inr t \<Longrightarrow>
      fst (run_command os command cwd st) = Inr (splitlines t)"
    using dir spawned
    by (simp add: run_command_def run_command_try_def check_output_def Let_def)
  have nonzero: "status \<noteq> 0 \<Longrightarrow> decode_when_needed out = Inr t \<Longrightarrow>
      fst (run_command os command cwd st) = Inl (CalledProcessError status (Lines (splitlines t)))"
    using dir spawned
    by (simp add: run_command_def run_command_try_def check_output_def Let_def)
  have bad: "decode_when_needed out = Inl e \<Longrightarrow>
      fst (run_command os command cwd st) = Inl UnicodeDecodeError"
  proof -
    assume d: "decode_when_needed out = Inl e"
    then have e: "e = UnicodeDecodeError" by (rule decode_when_needed_error)
    show ?thesis
    proof (cases "status = 0")
      case True
      with d e dir spawned show ?thesis
        by (simp add: run_command_def run_command_try_def check_output_def Let_def)
    next
      case False
      with d e dir spawned show ?thesis
        by (simp add: run_command_def run_command_try_def check_output_def Let_def)
    qed
  qed
  have good: "decode_when_needed out = Inr t \<longrightarrow>
            (status = 0 \<longrightarrow> fst (run_command os command cwd st) = Inr (splitlines t))
          \<and> (status \<noteq> 0 \<longrightarrow> fst (run_command os command cwd st)
                 = Inl (CalledProcessError status (Lines (splitlines t))))
          \<and> ((\<exists>ls. fst (run_command os command cwd st) = Inr ls) = (status = 0))
          \<and> ((\<exists>e. fst (run_command os command cwd st) = Inl e) = (status \<noteq> 0))"
  proof
    assume t: "decode_when_needed out = Inr t"
    show "(status = 0 \<longrightarrow> fst (run_command os command cwd st) = Inr (splitlines t))
          \<and> (status \<noteq> 0 \<longrightarrow> fst (run_command os command cwd st)
                 = Inl (CalledProcessError status (Lines (splitlines t))))
          \<and> ((\<exists>ls. fst (run_command os command cwd st) = Inr ls) = (status = 0))
          \<and> ((\<exists>e. fst (run_command os command cwd st) = Inl e) = (status \<noteq> 0))"
    proof (cases "status = 0")
      case True
      from zero [OF True t] True show ?thesis by simp
    next
      case False
      from nonzero [OF False t] False show ?thesis by simp
    qed
  qed
  from good bad show ?thesis by blast
qed

theorem run_command_outcomes_witness:
  "fst (run_command (os_with (0, Bytes [0x6F, 0x6B, 0x0A, 0xC3, 0xA9])) [str ''cc''] None
        initial_state) = Inr [str ''ok'', [0xE9]]
   \<and> fst (run_command (os_with (1, Bytes [0x6E, 0x6F, 0x0A])) [str ''cc''] None initial_state)
       = Inl (CalledProcessError 1 (Lines [str ''no'']))
   \<and> fst (run_command (os_with (1, Bytes [0xFF])) [str ''cc''] None initial_state)
       = Inl UnicodeDecodeError"
proof -
  let ?ok = "Bytes [0x6F, 0x6B, 0x0A, 0xC3, 0xA9]"
  let ?no = "Bytes [0x6E, 0x6F, 0x0A]"
  have dir: "(case None of None \<Rightarrow> os_getcwd (os_with r)
        | Some d \<Rightarrow> if d = [] then os_getcwd (os_with r) else os_abspath (os_with r) d)
      = Inr (str ''/build'')" for r
    by (simp add: os_with_def)
  have sp: "os_spawn (os_with (s, out)) [str ''cc''] (str ''/build'') = Inr (s, out)" for s out
    by (simp add: os_with_def)
  have d1: "decode_when_needed ?ok = Inr (str ''ok'' @ [0x0A, 0xE9])"
    by (simp add: decode_when_needed_def continuation_def str_def)
  have d2: "decode_when_needed ?no = Inr (str ''no'' @ [0x0A])"
    by (simp add: decode_when_needed_def str_def)
  have d3: "decode_when_needed (Bytes [0xFF]) = Inl UnicodeDecodeError"
    by (simp add: decode_when_needed_def)
  have s1: "splitlines (str ''ok'' @ [0x0A, 0xE9]) = [str ''ok'', [0xE9]]"
    by (simp add: splitlines_def linebreak_def str_def)
  have s2: "splitlines (str ''no'' @ [0x0A]) = [str ''no'']"
    by (simp add: splitlines_def linebreak_def str_def)
  have a: "fst (run_command (os_with (0, ?ok)) [str ''cc''] None initial_state)
      = Inr [str ''ok'', [0xE9]]"
    using run_command_outcomes [OF dir sp, where t = "str ''ok'' @ [0x0A, 0xE9]"
        and st = initial_state, THEN conjunct1] d1 s1
    by simp
  have b: "fst (run_command (os_with (1, ?no)) [str ''cc''] None initial_state)
      = Inl (CalledProcessError 1 (Lines [str ''no'']))"
    using run_command_outcomes [OF dir sp, where t = "str ''no'' @ [0x0A]"
        and st = initial_state, THEN conjunct1] d2 s2
    by simp
  have c: "fst (run_command (os_with (1, Bytes [0xFF])) [str ''cc''] None initial_state)
      = Inl UnicodeDecodeError"
    using run_command_outcomes [OF dir sp, where e = UnicodeDecodeError
        and st = initial_state, THEN conjunct2] d3
    by simp
  show ?thesis
    by (intro conjI a b c)
qed

section \<open>Properties of the JSON codec\<close>

text \<open>Four hexadecimal digits written by \<open>json.dumps\<close> are read back as the same number.\<close>

lemma hex_arith:
  fixes n :: nat
  assumes "n < 65536"
  shows "((n div 4096 mod 16 * 16 + n div 256 mod 16) * 16 + n div 16 mod 16) * 16 + n mod 16 = n"
proof -
  have e1: "n div 256 = n div 16 div 16"
    using div_mult2_eq [of n 16 16] by simp
  have e2: "n div 4096 = n div 16 div 16 div 16"
    using div_mult2_eq [of n 256 16] e1 by simp
  have a: "n div 4096 mod 16 = n div 4096" using assms by simp
  have b: "n div 16 div 16 = (n div 16 div 16 div 16) * 16 + n div 16 div 16 mod 16"
    by simp
  have c: "n div 16 = (n div 16 div 16) * 16 + n div 16 mod 16"
    by simp
  have d: "n = (n div 16) * 16 + n mod 16"
    by simp
  show ?thesis
    unfolding a unfolding e1 e2 using b c d by metis
qed

lemma hexval_hexdigit: "d < 16 \<Longrightarrow> hexval (hexdigit d) = Some d"
  by (auto simp: hexval_def hexdigit_def)

lemma hex4_digits:
  assumes "n < 65536"
  shows "hex4 [hexdigit (n div 4096 mod 16), hexdigit (n div 256 mod 16),
               hexdigit (n div 16 mod 16), hexdigit (n mod 16)] = Some n"
proof -
  have top: "n div 4096 mod 16 = n div 4096" using assms by simp
  have "hex4 [hexdigit (n div 4096 mod 16), hexdigit (n div 256 mod 16),
               hexdigit (n div 16 mod 16), hexdigit (n mod 16)]
      = Some (((n div 4096 mod 16 * 16 + n div 256 mod 16) * 16 + n div 16 mod 16) * 16 + n mod 16)"
    by (simp add: hexval_hexdigit del: mod_mod_trivial)
  then show ?thesis
    by (simp only: hex_arith [OF assms])
qed


lemma scanstring_uXXXX:
  assumes "hex4 [a, b, c, d] = Some n"
  shows "scanstring (0x5C # 0x75 # a # b # c # d # t) =
     (if 0xD800 \<le> n \<and> n \<le> 0xDBFF \<and> take 2 t = [0x5C, 0x75] then
        (case hex4 (take 4 (drop 2 t)) of
           None \<Rightarrow> None
         | Some uni2 \<Rightarrow>
             if 0xDC00 \<le> uni2 \<and> uni2 \<le> 0xDFFF
             then chunk (0x10000 + ((n - 0xD800) * 1024 + (uni2 - 0xDC00))) (scanstring (drop 6 t))
             else chunk n (scanstring t))
      else chunk n (scanstring t))"
  using assms
  by (simp add: take_Cons' drop_Cons' del: hex4.simps split: option.split)

lemma scanstring_bmp:
  assumes "n < 65536" and "\<not> (0xD800 \<le> n \<and> n \<le> 0xDBFF)"
  shows "scanstring (u_escape n @ t) = chunk n (scanstring t)"
proof -
  have "scanstring (u_escape n @ t)
      = scanstring (0x5C # 0x75 # hexdigit (n div 4096 mod 16) # hexdigit (n div 256 mod 16)
          # hexdigit (n div 16 mod 16) # hexdigit (n mod 16) # t)"
    by (simp only: u_escape_def append_Cons append_Nil)
  also have "\<dots> = chunk n (scanstring t)"
    unfolding scanstring_uXXXX [OF hex4_digits [OF assms(1)]]
    using assms(2) by (auto simp del: hex4.simps)
  finally show ?thesis .
qed

lemma surrogate_arith:
  fixes c :: nat
  assumes "0x10000 \<le> c" and "c < 0x110000"
  shows "0xD800 + (c - 0x10000) div 1024 mod 1024 < 65536"
    and "0xDC00 + (c - 0x10000) mod 1024 < 65536"
    and "0xD800 \<le> 0xD800 + (c - 0x10000) div 1024 mod 1024"
    and "0xD800 + (c - 0x10000) div 1024 mod 1024 \<le> 0xDBFF"
    and "0xDC00 \<le> 0xDC00 + (c - 0x10000) mod 1024"
    and "0xDC00 + (c - 0x10000) mod 1024 \<le> 0xDFFF"
    and "0x10000 + (((0xD800 + (c - 0x10000) div 1024 mod 1024) - 0xD800) * 1024
           + ((0xDC00 + (c - 0x10000) mod 1024) - 0xDC00)) = c"
proof -
  define m where "m = c - 0x10000"
  have m: "m < 0x100000" "c = 0x10000 + m" using assms by (simp_all add: m_def)
  then have d: "m div 1024 < 1024" by simp
  then have dm: "m div 1024 mod 1024 = m div 1024" by simp
  have r: "m mod 1024 < 1024" by simp
  have split: "m div 1024 * 1024 + m mod 1024 = m" by simp
  show "0xD800 + (c - 0x10000) div 1024 mod 1024 < 65536"
    using d dm by (simp add: m_def [symmetric])
  show "0xDC00 + (c - 0x10000) mod 1024 < 65536"
    using r by (simp add: m_def [symmetric])
  show "0xD800 \<le> 0xD800 + (c - 0x10000) div 1024 mod 1024" by simp
  show "0xD800 + (c - 0x10000) div 1024 mod 1024 \<le> 0xDBFF"
    using d dm by (simp add: m_def [symmetric])
  show "0xDC00 \<le> 0xDC00 + (c - 0x10000) mod 1024" by simp
  show "0xDC00 + (c - 0x10000) mod 1024 \<le> 0xDFFF"
    using r by (simp add: m_def [symmetric])
  show "0x10000 + (((0xD800 + (c - 0x10000) div 1024 mod 1024) - 0xD800) * 1024
           + ((0xDC00 + (c - 0x10000) mod 1024) - 0xDC00)) = c"
    using split dm m(2) by (simp add: m_def [symmetric])
qed

lemma scanstring_pair:
  assumes "0x10000 \<le> c" and "c < 0x110000"
  shows "scanstring (u_escape (0xD800 + (c - 0x10000) div 1024 mod 1024)
           @ u_escape (0xDC00 + (c - 0x10000) mod 1024) @ t) = chunk c (scanstring t)"
proof -
  define hi where "hi = 0xD800 + (c - 0x10000) div 1024 mod 1024"
  define lo where "lo = 0xDC00 + (c - 0x10000) mod 1024"
  note a = surrogate_arith [OF assms, folded hi_def lo_def]
  define l3 l2 l1 l0 where "l3 = hexdigit (lo div 4096 mod 16)" and "l2 = hexdigit (lo div 256 mod 16)"
    and "l1 = hexdigit (lo div 16 mod 16)" and "l0 = hexdigit (lo mod 16)"
  have lo4: "hex4 [l3, l2, l1, l0] = Some lo"
    unfolding l3_def l2_def l1_def l0_def by (rule hex4_digits [OF a(2)])
  have ulo: "u_escape lo @ t = 0x5C # 0x75 # l3 # l2 # l1 # l0 # t"
    by (simp only: u_escape_def append_Cons append_Nil l3_def l2_def l1_def l0_def)
  have "scanstring (u_escape hi @ u_escape lo @ t)
      = scanstring (0x5C # 0x75 # hexdigit (hi div 4096 mod 16) # hexdigit (hi div 256 mod 16)
          # hexdigit (hi div 16 mod 16) # hexdigit (hi mod 16) # u_escape lo @ t)"
    by (simp only: u_escape_def append_Cons append_Nil)
  also have "\<dots> = chunk (0x10000 + ((hi - 0xD800) * 1024 + (lo - 0xDC00))) (scanstring t)"
    unfolding scanstring_uXXXX [OF hex4_digits [OF a(1)]] ulo
    using a(3,4,5,6) lo4
    by (simp add: take_Cons' drop_Cons' del: hex4.simps)
  also have "\<dots> = chunk c (scanstring t)"
    by (simp only: a(7))
  finally show ?thesis
    by (simp only: hi_def lo_def)
qed


lemma chunk_Some_eq: "chunk c (Some (s, rest)) = Some (c # s, rest)"
  by (simp add: chunk_def)

lemma scanstring_escape_ascii:
  assumes "unicode_scalar c"
  shows "scanstring (escape_ascii c @ t) = chunk c (scanstring t)"
proof -
  consider (special) "c \<in> {0x5C, 0x22, 0x08, 0x0C, 0x0A, 0x0D, 0x09}"
    | (plain) "c \<notin> {0x5C, 0x22, 0x08, 0x0C, 0x0A, 0x0D, 0x09}" "0x20 \<le> c" "c \<le> 0x7E"
    | (bmp) "c \<notin> {0x5C, 0x22, 0x08, 0x0C, 0x0A, 0x0D, 0x09}" "\<not> (0x20 \<le> c \<and> c \<le> 0x7E)" "c < 0x10000"
    | (astral) "\<not> c < 0x10000"
    by blast
  then show ?thesis
  proof cases
    case special
    then show ?thesis
      by (auto simp: escape_ascii_def unescape_def)
  next
    case plain
    then show ?thesis
      by (simp add: escape_ascii_def)
  next
    case bmp
    have ns: "\<not> (0xD800 \<le> c \<and> c \<le> 0xDBFF)"
      using assms by (auto simp: unicode_scalar_def)
    have "escape_ascii c = u_escape c"
      using bmp by (auto simp: escape_ascii_def)
    then show ?thesis
      by (simp only: scanstring_bmp [OF bmp(3) ns])
  next
    case astral
    have lim: "0x10000 \<le> c" "c < 0x110000"
      using astral assms by (simp_all add: unicode_scalar_def)
    have "escape_ascii c = u_escape (0xD800 + (c - 0x10000) div 1024 mod 1024)
           @ u_escape (0xDC00 + (c - 0x10000) mod 1024)"
      using astral by (auto simp: escape_ascii_def)
    then show ?thesis
      by (simp only: append_assoc scanstring_pair [OF lim])
  qed
qed

lemma scanstring_encoded:
  assumes "\<forall>c\<in>set s. unicode_scalar c"
  shows "scanstring (concat (map escape_ascii s) @ 0x22 # rest) = Some (s, rest)"
  using assms
proof (induction s)
  case Nil
  show ?case by simp
next
  case (Cons c s)
  then have c: "unicode_scalar c" and IH: "scanstring (concat (map escape_ascii s) @ 0x22 # rest) = Some (s, rest)"
    by simp_all
  have "scanstring (concat (map escape_ascii (c # s)) @ 0x22 # rest)
      = scanstring (escape_ascii c @ (concat (map escape_ascii s) @ 0x22 # rest))"
    by simp
  also have "\<dots> = chunk c (scanstring (concat (map escape_ascii s) @ 0x22 # rest))"
    by (rule scanstring_escape_ascii [OF c])
  also have "\<dots> = Some (c # s, rest)"
    by (simp only: IH chunk_Some_eq)
  finally show ?case .
qed

text \<open>The decimal digits of an integer are read back as the same integer.\<close>

lemma str_nat_digits: "\<forall>d\<in>set (str_nat n). is_digit d"
proof (induction n rule: str_nat.induct)
  case (1 n)
  show ?case
  proof (cases "n < 10")
    case True
    then show ?thesis by (simp add: str_nat.simps [of n] is_digit_def)
  next
    case False
    have "n mod 10 < 10" by simp
    then have "is_digit (0x30 + n mod 10)" by (simp add: is_digit_def)
    with False "1.IH" show ?thesis by (simp add: str_nat.simps [of n])
  qed
qed

lemma str_nat_nonempty: "str_nat n \<noteq> []"
  by (simp add: str_nat.simps [of n])

lemma digits_value_str_nat: "digits_value (str_nat n) = n"
proof (induction n rule: str_nat.induct)
  case (1 n)
  show ?case
  proof (cases "n < 10")
    case True
    then show ?thesis by (simp add: str_nat.simps [of n] digits_value_def)
  next
    case False
    with "1.IH" have "digits_value (str_nat (n div 10)) = n div 10" by simp
    with False show ?thesis
      by (simp add: str_nat.simps [of n] digits_value_def)
  qed
qed

lemma str_nat_leading: "10 \<le> n \<Longrightarrow> hd (str_nat n) \<noteq> 0x30"
proof (induction n rule: str_nat.induct)
  case (1 n)
  then have ge: "10 \<le> n" by simp
  then have n: "str_nat n = str_nat (n div 10) @ [0x30 + n mod 10]"
    by (simp add: str_nat.simps [of n])
  have hd: "hd (str_nat n) = hd (str_nat (n div 10))"
    by (simp add: n str_nat_nonempty)
  show ?case
  proof (cases "n div 10 < 10")
    case True
    from ge have "1 \<le> n div 10" by simp
    with True show ?thesis by (simp add: hd str_nat.simps [of "n div 10"])
  next
    case False
    with "1.IH" ge show ?thesis by (simp add: hd)
  qed
qed

lemma takeWhile_digits_comma:
  assumes "\<forall>d\<in>set ds. is_digit d"
  shows "takeWhile is_digit (ds @ 0x2C # t) = ds" and "dropWhile is_digit (ds @ 0x2C # t) = 0x2C # t"
proof -
  have nd: "\<not> is_digit 0x2C" by (simp add: is_digit_def)
  show "takeWhile is_digit (ds @ 0x2C # t) = ds"
    using assms nd by (simp add: takeWhile_append2)
  show "dropWhile is_digit (ds @ 0x2C # t) = 0x2C # t"
    using assms nd by (simp add: dropWhile_append2)
qed

lemma scan_tail_comma:
  "scan_fraction (0x2C # t) = ([], 0x2C # t)" "scan_exponent (0x2C # t) = ([], 0x2C # t)"
  by (simp_all add: scan_fraction_def scan_exponent_def)

lemma scan_digits:
  assumes ds: "str_nat n = d # ds"
  shows "(if d = 0x30 then ([d], ds @ 0x2C # t)
          else (d # takeWhile is_digit (ds @ 0x2C # t), dropWhile is_digit (ds @ 0x2C # t)))
         = (str_nat n, 0x2C # t)"
proof (cases "d = 0x30")
  case True
  have "n < 10"
  proof (rule ccontr)
    assume "\<not> n < 10"
    then have "hd (str_nat n) \<noteq> 0x30" using str_nat_leading [of n] by simp
    with ds True show False by simp
  qed
  with ds have "ds = []" by (simp add: str_nat.simps [of n])
  with True ds show ?thesis by simp
next
  case False
  have "\<forall>x\<in>set ds. is_digit x" using str_nat_digits [of n] ds by simp
  from takeWhile_digits_comma [OF this, of t] False ds show ?thesis by simp
qed

lemma scan_number_str_nat:
  "scan_number (str_nat n @ 0x2C # t) = Some (T_int (int n), 0x2C # t)"
proof -
  obtain d ds where ds: "str_nat n = d # ds"
    using str_nat_nonempty [of n] by (cases "str_nat n") auto
  have dig: "is_digit d" using str_nat_digits [of n] ds by simp
  then have nm: "d \<noteq> 0x2D" by (auto simp: is_digit_def)
  show ?thesis
    using nm dig scan_digits [OF ds, of t] digits_value_str_nat [of n]
    by (simp add: scan_number_def ds scan_tail_comma)
qed

lemma scan_number_str_neg:
  "scan_number (0x2D # str_nat n @ 0x2C # t) = Some (T_int (- int n), 0x2C # t)"
proof -
  obtain d ds where ds: "str_nat n = d # ds"
    using str_nat_nonempty [of n] by (cases "str_nat n") auto
  have dig: "is_digit d" using str_nat_digits [of n] ds by simp
  show ?thesis
    using dig scan_digits [OF ds, of t] digits_value_str_nat [of n]
    by (simp add: scan_number_def ds scan_tail_comma)
qed

lemma scan_number_str_int:
  "scan_number (str_int i @ 0x2C # t) = Some (T_int i, 0x2C # t)"
proof (cases "i < 0")
  case True
  then show ?thesis
    using scan_number_str_neg [of "nat (- i)" t] by (simp add: str_int_def)
next
  case False
  then show ?thesis
    using scan_number_str_nat [of "nat i" t] by (simp add: str_int_def)
qed

lemma str_int_head:
  "\<exists>d ds. str_int i = d # ds \<and> (d = 0x2D \<or> is_digit d)"
proof (cases "i < 0")
  case True
  then show ?thesis by (simp add: str_int_def)
next
  case False
  obtain d ds where ds: "str_nat (nat i) = d # ds"
    using str_nat_nonempty [of "nat i"] by (cases "str_nat (nat i)") auto
  have "is_digit d" using str_nat_digits [of "nat i"] ds by simp
  with False ds show ?thesis by (simp add: str_int_def)
qed

lemma tokenize_str_int:
  "tokenize (str_int i @ 0x2C # t) = tok (T_int i) (tok T_comma (tokenize t))"
proof -
  obtain d ds where ds: "str_int i = d # ds" and d: "d = 0x2D \<or> is_digit d"
    using str_int_head [of i] by blast
  have sn: "scan_number (d # ds @ 0x2C # t) = Some (T_int i, 0x2C # t)"
    using scan_number_str_int [of i t] by (simp add: ds)
  from d have range: "d = 0x2D \<or> (0x30 \<le> d \<and> d \<le> 0x39)" by (simp add: is_digit_def)
  have "tokenize (d # ds @ 0x2C # t) = tok (T_int i) (tokenize (0x2C # t))"
    using range sn by (auto simp: str_def)
  then show ?thesis by (simp add: ds)
qed

lemma tokenize_string:
  assumes "\<forall>c\<in>set s. unicode_scalar c"
  shows "tokenize (encode_basestring_ascii s @ t) = tok (T_string s) (tokenize t)"
proof -
  have "tokenize (encode_basestring_ascii s @ t) = tokenize (0x22 # concat (map escape_ascii s) @ 0x22 # t)"
    by (simp add: encode_basestring_ascii_def)
  also have "\<dots> = tok (T_string s) (tokenize t)"
    by (simp add: scanstring_encoded [OF assms])
  finally show ?thesis .
qed

lemma tokenize_config:
  assumes "\<forall>c\<in>set a. unicode_scalar c" and "\<forall>c\<in>set b. unicode_scalar c"
  shows "tokenize (json_dumps (JObj [(str ''verbose'', JInt v), (str ''cc'', JStr a), (str ''cxx'', JStr b)]))
    = Some [T_lbrace, T_string (str ''verbose''), T_colon, T_int v, T_comma,
            T_string (str ''cc''), T_colon, T_string a, T_comma,
            T_string (str ''cxx''), T_colon, T_string b, T_rbrace]"
proof -
  have k1: "\<forall>c\<in>set (str ''verbose''). unicode_scalar c" by (simp add: str_def unicode_scalar_def)
  have k2: "\<forall>c\<in>set (str ''cc''). unicode_scalar c" by (simp add: str_def unicode_scalar_def)
  have k3: "\<forall>c\<in>set (str ''cxx''). unicode_scalar c" by (simp add: str_def unicode_scalar_def)
  have sep: "str '': '' = [0x3A, 0x20]" "str '', '' = [0x2C, 0x20]" "str ''{'' = [0x7B]" "str ''}'' = [0x7D]"
    by (simp_all add: str_def)
  show ?thesis
    by (simp add: sep tokenize_string [OF k1] tokenize_string [OF k2] tokenize_string [OF k3]
        tokenize_string [OF assms(1)] tokenize_string [OF assms(2)] tokenize_str_int tok_def)
qed

section \<open>Properties of the wrapper configuration codec\<close>

lemma parse_config:
  "parse_tokens ([], M_value)
     [T_lbrace, T_string k1, T_colon, T_int v, T_comma,
      T_string k2, T_colon, T_string a, T_comma,
      T_string k3, T_colon, T_string b, T_rbrace]
   = Some ([], M_done (JObj [(k1, JInt v), (k2, JStr a), (k3, JStr b)]))"
  by (simp add: begin_value_def begin_member_def close_object_def)

lemma loads_dumps_config:
  assumes "\<forall>c\<in>set a. unicode_scalar c" and "\<forall>c\<in>set b. unicode_scalar c"
  shows "json_loads (json_dumps (JObj [(str ''verbose'', JInt v), (str ''cc'', JStr a), (str ''cxx'', JStr b)]))
    = Inr (JObj [(str ''verbose'', JInt v), (str ''cc'', JStr a), (str ''cxx'', JStr b)])"
  unfolding json_loads_def tokenize_config [OF assms]
  by (simp add: parse_config del: parse_tokens.simps)

lemma getitem_config:
  "getitem (JObj [(str ''verbose'', x), (str ''cc'', y), (str ''cxx'', z)]) (str ''verbose'') = Inr x"
  "getitem (JObj [(str ''verbose'', x), (str ''cc'', y), (str ''cxx'', z)]) (str ''cc'') = Inr y"
  "getitem (JObj [(str ''verbose'', x), (str ''cc'', y), (str ''cxx'', z)]) (str ''cxx'') = Inr z"
  by (simp_all add: getitem_def str_def)

lemma load_parameters_wrapper_environment:
  assumes "\<forall>c\<in>set (args_cc args). unicode_scalar c"
    and "\<forall>c\<in>set (args_cxx args). unicode_scalar c"
  shows "load_parameters (wrapper_environment args)
    = Inr (JObj [(str ''verbose'', JInt (args_verbose args)), (str ''cc'', JStr (args_cc args)),
                 (str ''cxx'', JStr (args_cxx args))])"
proof -
  let ?obj = "JObj [(str ''verbose'', JInt (args_verbose args)), (str ''cc'', JStr (args_cc args)),
                    (str ''cxx'', JStr (args_cxx args))]"
  have env: "wrapper_environment args ENVIRONMENT_KEY = Some (json_dumps ?obj)"
    by (simp add: wrapper_environment_def del: json_dumps.simps)
  have "load_parameters (wrapper_environment args) = json_loads (json_dumps ?obj)"
    by (simp only: load_parameters_def env option.case)
  then show ?thesis
    by (simp only: loads_dumps_config [OF assms])
qed

text \<open>
  C4. For every configuration whose two compiler strings consist of Unicode scalar values
  (every printable string does, with spaces and characters outside ASCII), and for every
  integer verbosity: what the wrapper reads from the environment that
  \<open>wrapper_environment\<close> produced is the same configuration. \<open>json.loads\<close> succeeds on the
  transport string, and the reads \<open>parameters['verbose']\<close>, \<open>parameters['cc']\<close> and
  \<open>parameters['cxx']\<close> return the verbosity and the two strings unchanged.
\<close>

theorem wrapper_config_round_trip:
  assumes "\<forall>c\<in>set (args_cc args). unicode_scalar c"
    and "\<forall>c\<in>set (args_cxx args). unicode_scalar c"
  shows "\<exists>parameters.
           load_parameters (wrapper_environment args) = Inr parameters
         \<and> getitem parameters (str ''verbose'') = Inr (JInt (args_verbose args))
         \<and> getitem parameters (str ''cc'') = Inr (JStr (args_cc args))
         \<and> getitem parameters (str ''cxx'') = Inr (JStr (args_cxx args))"
  using load_parameters_wrapper_environment [OF assms] by (simp add: getitem_config)

theorem wrapper_config_round_trip_witness:
  "\<exists>parameters.
     load_parameters (wrapper_environment
        \<lparr>args_verbose = 2, args_cc = str ''/opt/my tools/cc'' @ [0xE9, 0x4E2D, 0x1F600],
         args_cxx = str ''/usr/bin/clang++''\<rparr>) = Inr parameters
   \<and> getitem parameters (str ''verbose'') = Inr (JInt 2)
   \<and> getitem parameters (str ''cc'') = Inr (JStr (str ''/opt/my tools/cc'' @ [0xE9, 0x4E2D, 0x1F600]))
   \<and> getitem parameters (str ''cxx'') = Inr (JStr (str ''/usr/bin/clang++''))"
proof -
  let ?args = "\<lparr>args_verbose = 2, args_cc = str ''/opt/my tools/cc'' @ [0xE9, 0x4E2D, 0x1F600],
         args_cxx = str ''/usr/bin/clang++''\<rparr>"
  have a: "\<forall>c\<in>set (args_cc ?args). unicode_scalar c"
    by (simp add: str_def unicode_scalar_def)
  have b: "\<forall>c\<in>set (args_cxx ?args). unicode_scalar c"
    by (simp add: str_def unicode_scalar_def)
  from wrapper_config_round_trip [OF a b] show ?thesis by simp
qed

section \<open>Properties of the compiler wrapper\<close>

lemma startswith_iff: "startswith s p = (\<exists>q. s = p @ q)"
  by (induction s p rule: startswith.induct) auto

lemma cxx_suffix_iff:
  "cxx_suffix s = (\<exists>p q. 0x0A \<notin> set p \<and> s = p @ str ''c++'' @ q)"
proof (induction s)
  case Nil
  show ?case by (simp add: str_def)
next
  case (Cons c cs)
  show ?case
  proof
    assume "cxx_suffix (c # cs)"
    then consider (here) "startswith (c # cs) (str ''c++'')" | (later) "c \<noteq> 0x0A" "cxx_suffix cs"
      by auto
    then show "\<exists>p q. 0x0A \<notin> set p \<and> c # cs = p @ str ''c++'' @ q"
    proof cases
      case here
      then obtain q where "c # cs = str ''c++'' @ q" by (auto simp: startswith_iff)
      then have "0x0A \<notin> set ([] :: nat list) \<and> c # cs = [] @ str ''c++'' @ q" by simp
      then show ?thesis by blast
    next
      case later
      with Cons.IH obtain p q where "0x0A \<notin> set p" "cs = p @ str ''c++'' @ q" by blast
      with later(1) have "0x0A \<notin> set (c # p) \<and> c # cs = (c # p) @ str ''c++'' @ q" by simp
      then show ?thesis by blast
    qed
  next
    assume "\<exists>p q. 0x0A \<notin> set p \<and> c # cs = p @ str ''c++'' @ q"
    then obtain p q where pq: "0x0A \<notin> set p" "c # cs = p @ str ''c++'' @ q" by blast
    show "cxx_suffix (c # cs)"
    proof (cases p)
      case Nil
      with pq have "startswith (c # cs) (str ''c++'')" by (simp add: startswith_iff)
      then show ?thesis by simp
    next
      case (Cons x xs)
      with pq have "c = x" "cs = xs @ str ''c++'' @ q" "x \<noteq> 0x0A" "0x0A \<notin> set xs" by auto
      with Cons.IH have "cxx_suffix cs" by blast
      with \<open>c = x\<close> \<open>x \<noteq> 0x0A\<close> show ?thesis by simp
    qed
  qed
qed

lemma re_match_cxx_iff:
  "re_match_cxx name = (\<exists>p q. p \<noteq> [] \<and> 0x0A \<notin> set p \<and> name = p @ str ''c++'' @ q)"
proof (cases name)
  case Nil
  then show ?thesis by (simp add: re_match_cxx_def)
next
  case (Cons c cs)
  show ?thesis
  proof
    assume "re_match_cxx name"
    with Cons have c: "c \<noteq> 0x0A" and "cxx_suffix cs" by (simp_all add: re_match_cxx_def)
    then obtain p q where "0x0A \<notin> set p" "cs = p @ str ''c++'' @ q"
      by (auto simp: cxx_suffix_iff)
    with c Cons have "c # p \<noteq> [] \<and> 0x0A \<notin> set (c # p) \<and> name = (c # p) @ str ''c++'' @ q"
      by simp
    then show "\<exists>p q. p \<noteq> [] \<and> 0x0A \<notin> set p \<and> name = p @ str ''c++'' @ q" by blast
  next
    assume "\<exists>p q. p \<noteq> [] \<and> 0x0A \<notin> set p \<and> name = p @ str ''c++'' @ q"
    then obtain p q where pq: "p \<noteq> []" "0x0A \<notin> set p" "name = p @ str ''c++'' @ q" by blast
    then obtain x xs where p: "p = x # xs" by (cases p) auto
    with pq Cons have "c = x" "cs = xs @ str ''c++'' @ q" "x \<noteq> 0x0A" "0x0A \<notin> set xs" by auto
    then have "c \<noteq> 0x0A \<and> cxx_suffix cs" by (auto simp: cxx_suffix_iff)
    with Cons show "re_match_cxx name" by (simp add: re_match_cxx_def)
  qed
qed

lemma real_compiler_config:
  "real_compiler (JObj [(str ''verbose'', v), (str ''cc'', ccp), (str ''cxx'', cxxp)]) name
     = Inr (if re_match_cxx name then cxxp else ccp)"
  by (simp add: real_compiler_def getitem_config)

lemma re_match_cxx_examples:
  "re_match_cxx (str ''x86_64-c++-13'')" "re_match_cxx (str ''intercept-c++'')"
  "\<not> re_match_cxx (str ''clang++'')" "\<not> re_match_cxx (str ''c++'')"
  "\<not> re_match_cxx (str ''intercept-cc'')"
  by (simp_all add: re_match_cxx_def str_def)

lemma wrapper_compile_Inr:
  assumes "wrapper_compile w st = (Inr (parameters, compiler, command, result), st')"
  shows "\<exists>verbose lg argv0 args tokens.
      load_parameters (w_environ w) = Inr parameters
    \<and> getitem parameters (str ''verbose'') = Inr verbose
    \<and> reconfigure_logging_value w verbose (logcfg st) = Inr lg
    \<and> w_argv w = argv0 # args
    \<and> real_compiler parameters (basename argv0) = Inr compiler
    \<and> w_decode w compiler = Inr tokens
    \<and> command = tokens @ args
    \<and> w_call w command = Inr result
    \<and> st' = emit (Log_debug (Msg (str ''compilation exit code: %d'')))
              (emit (Subprocess_call command)
                (emit (Log_debug (Msg (str ''compilation: %s''))) (st\<lparr>logcfg := lg\<rparr>)))"
  using assms
  by (auto simp: wrapper_compile_def Let_def split: sum.splits list.splits)

lemma wrapper_compile_run:
  assumes "load_parameters (w_environ w) = Inr parameters"
    and "getitem parameters (str ''verbose'') = Inr verbose"
    and "reconfigure_logging_value w verbose (logcfg st) = Inr lg"
    and "w_argv w = argv0 # args"
    and "real_compiler parameters (basename argv0) = Inr compiler"
    and "w_decode w compiler = Inr tokens"
    and "w_call w (tokens @ args) = Inr result"
  shows "wrapper_compile w st
     = (Inr (parameters, compiler, tokens @ args, result),
        emit (Log_debug (Msg (str ''compilation exit code: %d'')))
          (emit (Subprocess_call (tokens @ args))
            (emit (Log_debug (Msg (str ''compilation: %s''))) (st\<lparr>logcfg := lg\<rparr>))))"
  using assms by (simp add: wrapper_compile_def Let_def)

text \<open>A concrete wrapper process, used to run the model: the configuration of a build with
  the given compilers, invoked under the given name with the arguments \<open>-c a.c\<close>.\<close>

lemma wrapper_world_compile:
  assumes cc: "\<forall>c\<in>set ccp. unicode_scalar c" and cxx: "\<forall>c\<in>set cxxp. unicode_scalar c"
    and dec: "decoder (JStr (if re_match_cxx (basename name) then cxxp else ccp)) = Inr tokens"
  shows "wrapper_compile
           (wrapper_world (wrapper_environment \<lparr>args_verbose = 0, args_cc = ccp, args_cxx = cxxp\<rparr>)
              [name, str ''-c'', str ''a.c''] decoder code) st
     = (Inr (JObj [(str ''verbose'', JInt 0), (str ''cc'', JStr ccp), (str ''cxx'', JStr cxxp)],
             JStr (if re_match_cxx (basename name) then cxxp else ccp),
             tokens @ [str ''-c'', str ''a.c''], code),
        emit (Log_debug (Msg (str ''compilation exit code: %d'')))
          (emit (Subprocess_call (tokens @ [str ''-c'', str ''a.c'']))
            (emit (Log_debug (Msg (str ''compilation: %s''))) st)))"
proof -
  let ?args = "\<lparr>args_verbose = 0, args_cc = ccp, args_cxx = cxxp\<rparr>"
  let ?w = "wrapper_world (wrapper_environment ?args) [name, str ''-c'', str ''a.c''] decoder code"
  let ?p = "JObj [(str ''verbose'', JInt 0), (str ''cc'', JStr ccp), (str ''cxx'', JStr cxxp)]"
  have lp: "load_parameters (w_environ ?w) = Inr ?p"
    using load_parameters_wrapper_environment [of ?args] cc cxx
    by (simp add: wrapper_world_def)
  have v: "getitem ?p (str ''verbose'') = Inr (JInt 0)" by (rule getitem_config)
  have rl: "reconfigure_logging_value ?w (JInt 0) (logcfg st) = Inr (logcfg st)"
    by (simp add: reconfigure_logging_value_def reconfigure_logging_def)
  have av: "w_argv ?w = name # [str ''-c'', str ''a.c'']" by (simp add: wrapper_world_def)
  have rc: "real_compiler ?p (basename name)
      = Inr (JStr (if re_match_cxx (basename name) then cxxp else ccp))"
    by (simp add: real_compiler_config)
  have d: "w_decode ?w (JStr (if re_match_cxx (basename name) then cxxp else ccp)) = Inr tokens"
    using dec by (simp add: wrapper_world_def)
  have c: "w_call ?w (tokens @ [str ''-c'', str ''a.c'']) = Inr code"
    by (simp add: wrapper_world_def)
  from wrapper_compile_run [OF lp v rl av rc d c] show ?thesis by simp
qed

lemma clang_scalar:
  "\<forall>c\<in>set (str ''/usr/bin/clang''). unicode_scalar c"
  "\<forall>c\<in>set (str ''/usr/bin/clang++''). unicode_scalar c"
  by (simp_all add: str_def unicode_scalar_def)

lemma intercept_names:
  "re_match_cxx (basename (str ''/usr/libexec/intercept-cc'')) = False"
  "re_match_cxx (basename (str ''/usr/libexec/intercept-c++'')) = True"
  by (simp_all add: basename_def re_match_cxx_def str_def)

text \<open>
  C1. Whenever the wrapper has run the real compiler and \<open>subprocess.call\<close> returned an exit
  code, the wrapper returns exactly that code, whatever the decorated function does: the
  wrapper's result is the same for every two decorated functions. Conversely every value the
  wrapper returns is the exit code \<open>subprocess.call\<close> returned for the command it ran. When
  the decorated function raises, whatever the exception, the exception is logged and the
  compiler's exit code is returned.
\<close>

theorem wrapper_exit_code:
  "(wrapper_compile w st = (Inr (parameters, compiler, command, result), st') \<longrightarrow>
      w_call w command = Inr result
      \<and> fst (wrapper_entry_point w func st) = Inr result)
   \<and> (fst (wrapper_entry_point w func st) = Inr v \<longrightarrow>
        (\<exists>parameters compiler command st'.
            wrapper_compile w st = (Inr (parameters, compiler, command, v), st')
          \<and> w_call w command = Inr v))
   \<and> fst (wrapper_entry_point w func st) = fst (wrapper_entry_point w other_function st)
   \<and> (wrapper_compile w st = (Inr (parameters, compiler, command, result), st')
        \<and> getitem parameters (str ''cc'') = Inr cc \<and> getitem parameters (str ''cxx'') = Inr cxx
        \<and> func (Report compiler command result cc cxx)
             (emit (Function_call (Report compiler command result cc cxx)) st') = (Inl e, st'')
        \<longrightarrow> wrapper_entry_point w func st
              = (Inr result,
                 emit (Log_exception (Msg (str ''Compiler wrapper failed complete.'')) e) st''))"
proof -
  have a: "wrapper_compile w st = (Inr (parameters, compiler, command, result), st') \<longrightarrow>
      w_call w command = Inr result \<and> fst (wrapper_entry_point w func st) = Inr result"
  proof
    assume c: "wrapper_compile w st = (Inr (parameters, compiler, command, result), st')"
    from wrapper_compile_Inr [OF c] have "w_call w command = Inr result" by blast
    moreover from c have "fst (wrapper_entry_point w func st) = Inr result"
      by (simp add: wrapper_entry_point_def)
    ultimately show "w_call w command = Inr result
        \<and> fst (wrapper_entry_point w func st) = Inr result" by simp
  qed
  have b: "fst (wrapper_entry_point w func st) = Inr v \<longrightarrow>
        (\<exists>parameters compiler command st'.
            wrapper_compile w st = (Inr (parameters, compiler, command, v), st')
          \<and> w_call w command = Inr v)"
  proof
    assume r: "fst (wrapper_entry_point w func st) = Inr v"
    obtain x s1 where ws: "wrapper_compile w st = (x, s1)" by (cases "wrapper_compile w st")
    with r obtain parameters compiler command
      where c: "wrapper_compile w st = (Inr (parameters, compiler, command, v), s1)"
      by (cases x) (auto simp: wrapper_entry_point_def split: prod.splits)
    from wrapper_compile_Inr [OF c] have "w_call w command = Inr v" by blast
    with c show "\<exists>parameters compiler command st'.
            wrapper_compile w st = (Inr (parameters, compiler, command, v), st')
          \<and> w_call w command = Inr v" by blast
  qed
  have c: "fst (wrapper_entry_point w func st) = fst (wrapper_entry_point w other_function st)"
    by (simp add: wrapper_entry_point_def split: prod.splits sum.splits)
  have d: "wrapper_compile w st = (Inr (parameters, compiler, command, result), st')
        \<and> getitem parameters (str ''cc'') = Inr cc \<and> getitem parameters (str ''cxx'') = Inr cxx
        \<and> func (Report compiler command result cc cxx)
             (emit (Function_call (Report compiler command result cc cxx)) st') = (Inl e, st'')
        \<longrightarrow> wrapper_entry_point w func st
              = (Inr result,
                 emit (Log_exception (Msg (str ''Compiler wrapper failed complete.'')) e) st'')"
    by (simp add: wrapper_entry_point_def wrapper_report_def)
  show ?thesis
    by (intro conjI a b c d)
qed

theorem wrapper_exit_code_witness:
  "fst (wrapper_entry_point
          (wrapper_world (wrapper_environment
              \<lparr>args_verbose = 0, args_cc = str ''/usr/bin/clang'', args_cxx = str ''/usr/bin/clang++''\<rparr>)
            [str ''/usr/libexec/intercept-cc'', str ''-c'', str ''a.c''] decode 1)
          (report_failing (OtherException (str ''sink down''))) initial_state) = Inr 1
   \<and> fst (wrapper_entry_point
          (wrapper_world (wrapper_environment
              \<lparr>args_verbose = 0, args_cc = str ''/usr/bin/clang'', args_cxx = str ''/usr/bin/clang++''\<rparr>)
            [str ''/usr/libexec/intercept-cc'', str ''-c'', str ''a.c''] decode 1)
          (report_failing KeyboardInterrupt) initial_state) = Inr 1"
proof -
  let ?w = "wrapper_world (wrapper_environment
              \<lparr>args_verbose = 0, args_cc = str ''/usr/bin/clang'', args_cxx = str ''/usr/bin/clang++''\<rparr>)
            [str ''/usr/libexec/intercept-cc'', str ''-c'', str ''a.c''] decode 1"
  have dec: "decode (JStr (if re_match_cxx (basename (str ''/usr/libexec/intercept-cc''))
      then str ''/usr/bin/clang++'' else str ''/usr/bin/clang'')) = Inr [str ''/usr/bin/clang'']"
    by (simp add: intercept_names decode_def)
  note c = wrapper_world_compile [where decoder = decode
      and name = "str ''/usr/libexec/intercept-cc''" and ccp = "str ''/usr/bin/clang''"
      and cxxp = "str ''/usr/bin/clang++''" and tokens = "[str ''/usr/bin/clang'']"
      and code = 1 and st = initial_state, OF clang_scalar(1) clang_scalar(2) dec]
  have a: "fst (wrapper_entry_point ?w (report_failing (OtherException (str ''sink down'')))
      initial_state) = Inr 1"
    using wrapper_exit_code [where w = ?w and st = initial_state
        and func = "report_failing (OtherException (str ''sink down''))",
        THEN conjunct1, rule_format, OF c]
    by simp
  have b: "fst (wrapper_entry_point ?w (report_failing KeyboardInterrupt) initial_state) = Inr 1"
    using wrapper_exit_code [where w = ?w and st = initial_state
        and func = "report_failing KeyboardInterrupt",
        THEN conjunct1, rule_format, OF c]
    by simp
  show ?thesis
    by (intro conjI a b)
qed

text \<open>
  C2 as stated fails on its own example: the name \<open>clang++\<close> does not contain \<open>c++\<close> (its
  letters before \<open>++\<close> are \<open>clang\<close>), so the pattern does not match and the C compiler is
  chosen.
\<close>

theorem real_compiler_clang_counterexample:
  "real_compiler (JObj [(str ''verbose'', JInt 0), (str ''cc'', JStr (str ''/usr/bin/clang'')),
                        (str ''cxx'', JStr (str ''/usr/bin/clang++''))]) (str ''clang++'')
     = Inr (JStr (str ''/usr/bin/clang''))"
  by (simp add: real_compiler_config re_match_cxx_examples)

text \<open>
  C2, amended. The wrapper chooses \<open>parameters['cxx']\<close> exactly when the name it was invoked
  under matches \<open>(.+)c\+\+(.*)\<close> from its first character, that is when \<open>c++\<close> occurs in
  it after at least one character, none of the characters before it being a line feed
  (as in \<open>x86_64-c++-13\<close>); otherwise it chooses \<open>parameters['cc']\<close>. The name \<open>clang++\<close>
  does not match. The compiler a run of the wrapper uses is this choice for the base name of
  \<open>sys.argv[0]\<close>.
\<close>

theorem real_compiler_selection:
  "re_match_cxx name = (\<exists>p q. p \<noteq> [] \<and> 0x0A \<notin> set p \<and> name = p @ str ''c++'' @ q)
   \<and> real_compiler (JObj [(str ''verbose'', v), (str ''cc'', JStr ccPath), (str ''cxx'', JStr cxxPath)])
         name = Inr (JStr (if re_match_cxx name then cxxPath else ccPath))
   \<and> re_match_cxx (str ''x86_64-c++-13'')
   \<and> \<not> re_match_cxx (str ''clang++'')
   \<and> (wrapper_compile w st = (Inr (parameters, compiler, command, result), st') \<longrightarrow>
        (\<exists>argv0 args. w_argv w = argv0 # args
           \<and> real_compiler parameters (basename argv0) = Inr compiler))"
proof -
  have a: "re_match_cxx name = (\<exists>p q. p \<noteq> [] \<and> 0x0A \<notin> set p \<and> name = p @ str ''c++'' @ q)"
    by (rule re_match_cxx_iff)
  have b: "real_compiler (JObj [(str ''verbose'', v), (str ''cc'', JStr ccPath), (str ''cxx'', JStr cxxPath)])
         name = Inr (JStr (if re_match_cxx name then cxxPath else ccPath))"
    by (simp add: real_compiler_config)
  have c: "wrapper_compile w st = (Inr (parameters, compiler, command, result), st') \<longrightarrow>
        (\<exists>argv0 args. w_argv w = argv0 # args
           \<and> real_compiler parameters (basename argv0) = Inr compiler)"
  proof
    assume "wrapper_compile w st = (Inr (parameters, compiler, command, result), st')"
    from wrapper_compile_Inr [OF this]
    show "\<exists>argv0 args. w_argv w = argv0 # args
           \<and> real_compiler parameters (basename argv0) = Inr compiler" by blast
  qed
  show ?thesis
    by (intro conjI a b c re_match_cxx_examples(1) re_match_cxx_examples(3))
qed

theorem real_compiler_selection_witness:
  "real_compiler (JObj [(str ''verbose'', JInt 0), (str ''cc'', JStr (str ''/usr/bin/clang'')),
                        (str ''cxx'', JStr (str ''/usr/bin/clang++''))]) (str ''x86_64-c++-13'')
     = Inr (JStr (str ''/usr/bin/clang++''))
   \<and> real_compiler (JObj [(str ''verbose'', JInt 0), (str ''cc'', JStr (str ''/usr/bin/clang'')),
                        (str ''cxx'', JStr (str ''/usr/bin/clang++''))])
        (basename (str ''/usr/libexec/intercept-c++''))
     = Inr (JStr (str ''/usr/bin/clang++''))"
proof -
  let ?p = "JObj [(str ''verbose'', JInt 0), (str ''cc'', JStr (str ''/usr/bin/clang'')),
                        (str ''cxx'', JStr (str ''/usr/bin/clang++''))]"
  let ?w = "wrapper_world (wrapper_environment
              \<lparr>args_verbose = 0, args_cc = str ''/usr/bin/clang'', args_cxx = str ''/usr/bin/clang++''\<rparr>)
            [str ''/usr/libexec/intercept-c++'', str ''-c'', str ''a.c''] decode 0"
  note t = real_compiler_selection [where name = "str ''x86_64-c++-13''" and v = "JInt 0"
      and ccPath = "str ''/usr/bin/clang''" and cxxPath = "str ''/usr/bin/clang++''"
      and w = ?w and st = initial_state]
  have a: "real_compiler ?p (str ''x86_64-c++-13'') = Inr (JStr (str ''/usr/bin/clang++''))"
    using t [THEN conjunct2, THEN conjunct1] t [THEN conjunct2, THEN conjunct2, THEN conjunct1]
    by simp
  have dec: "decode (JStr (if re_match_cxx (basename (str ''/usr/libexec/intercept-c++''))
      then str ''/usr/bin/clang++'' else str ''/usr/bin/clang'')) = Inr [str ''/usr/bin/clang++'']"
    by (simp add: intercept_names decode_def)
  note c = wrapper_world_compile [where decoder = decode
      and name = "str ''/usr/libexec/intercept-c++''" and ccp = "str ''/usr/bin/clang''"
      and cxxp = "str ''/usr/bin/clang++''" and tokens = "[str ''/usr/bin/clang++'']"
      and code = 0 and st = initial_state, OF clang_scalar(1) clang_scalar(2) dec]
  have "\<exists>argv0 args. w_argv ?w = argv0 # args
      \<and> real_compiler ?p (basename argv0)
          = Inr (JStr (if re_match_cxx (basename (str ''/usr/libexec/intercept-c++''))
                       then str ''/usr/bin/clang++'' else str ''/usr/bin/clang''))"
    using t [THEN conjunct2, THEN conjunct2, THEN conjunct2, THEN conjunct2, rule_format, OF c] .
  then have b: "real_compiler ?p (basename (str ''/usr/libexec/intercept-c++''))
      = Inr (JStr (str ''/usr/bin/clang++''))"
    by (simp add: wrapper_world_def intercept_names)
  show ?thesis
    by (intro conjI a b)
qed



lemma json_loads_error: "json_loads s = Inl e \<Longrightarrow> e = JSONDecodeError"
  by (auto simp: json_loads_def split: option.splits prod.splits list.splits mode.splits)

lemma load_parameters_without_cxx:
  "load_parameters environment_without_cxx
     = Inr (JObj [(str ''verbose'', JInt 0), (str ''cc'', JStr (str ''gcc''))])"
proof -
  have k1: "\<forall>c\<in>set (str ''verbose''). unicode_scalar c" by (simp add: str_def unicode_scalar_def)
  have k2: "\<forall>c\<in>set (str ''cc''). unicode_scalar c" by (simp add: str_def unicode_scalar_def)
  have k3: "\<forall>c\<in>set (str ''gcc''). unicode_scalar c" by (simp add: str_def unicode_scalar_def)
  have sep: "str '': '' = [0x3A, 0x20]" "str '', '' = [0x2C, 0x20]" "str ''{'' = [0x7B]" "str ''}'' = [0x7D]"
    by (simp_all add: str_def)
  have t: "tokenize (json_dumps (JObj [(str ''verbose'', JInt 0), (str ''cc'', JStr (str ''gcc''))]))
      = Some [T_lbrace, T_string (str ''verbose''), T_colon, T_int 0, T_comma,
              T_string (str ''cc''), T_colon, T_string (str ''gcc''), T_rbrace]"
    by (simp add: sep tokenize_string [OF k1] tokenize_string [OF k2] tokenize_string [OF k3]
        tokenize_str_int tok_def)
  have p: "parse_tokens ([], M_value)
      [T_lbrace, T_string (str ''verbose''), T_colon, T_int 0, T_comma,
       T_string (str ''cc''), T_colon, T_string (str ''gcc''), T_rbrace]
     = Some ([], M_done (JObj [(str ''verbose'', JInt 0), (str ''cc'', JStr (str ''gcc''))]))"
    by (simp add: begin_value_def begin_member_def close_object_def)
  have l: "json_loads (json_dumps (JObj [(str ''verbose'', JInt 0), (str ''cc'', JStr (str ''gcc''))]))
      = Inr (JObj [(str ''verbose'', JInt 0), (str ''cc'', JStr (str ''gcc''))])"
    unfolding json_loads_def t by (simp add: p del: parse_tokens.simps)
  have env: "environment_without_cxx ENVIRONMENT_KEY
      = Some (json_dumps (JObj [(str ''verbose'', JInt 0), (str ''cc'', JStr (str ''gcc''))]))"
    by (simp add: environment_without_cxx_def del: json_dumps.simps)
  show ?thesis
    by (simp only: load_parameters_def env option.case l)
qed

lemma getitem_without_cxx:
  "getitem (JObj [(str ''verbose'', x), (str ''cc'', y)]) (str ''verbose'') = Inr x"
  "getitem (JObj [(str ''verbose'', x), (str ''cc'', y)]) (str ''cc'') = Inr y"
  "getitem (JObj [(str ''verbose'', x), (str ''cc'', y)]) (str ''cxx'') = Inl (KeyError (str ''cxx''))"
  by (simp_all add: getitem_def str_def)

text \<open>
  C9 as stated fails for a configuration that cannot be read in full: when the transport
  value is the JSON object with the entries \<open>verbose\<close> and \<open>cc\<close> only and the wrapper is
  invoked as \<open>intercept-cc\<close>, the compiler is run and its exit code returned; the missing
  \<open>cxx\<close> shows only as a \<open>KeyError\<close> logged by the \<open>try\<close> around the report.
\<close>

theorem wrapper_missing_cxx_counterexample:
  "fst (wrapper_entry_point
          (wrapper_world environment_without_cxx
             [str ''/usr/libexec/intercept-cc'', str ''-c'', str ''a.c''] decode 0)
          report_nothing initial_state) = Inr 0
   \<and> events (snd (wrapper_entry_point
          (wrapper_world environment_without_cxx
             [str ''/usr/libexec/intercept-cc'', str ''-c'', str ''a.c''] decode 0)
          report_nothing initial_state))
      = [Log_debug (Msg (str ''compilation: %s'')),
         Subprocess_call [str ''gcc'', str ''-c'', str ''a.c''],
         Log_debug (Msg (str ''compilation exit code: %d'')),
         Log_exception (Msg (str ''Compiler wrapper failed complete.'')) (KeyError (str ''cxx''))]"
proof -
  let ?w = "wrapper_world environment_without_cxx
             [str ''/usr/libexec/intercept-cc'', str ''-c'', str ''a.c''] decode 0"
  let ?p = "JObj [(str ''verbose'', JInt 0), (str ''cc'', JStr (str ''gcc''))]"
  have lp: "load_parameters (w_environ ?w) = Inr ?p"
    using load_parameters_without_cxx by (simp add: wrapper_world_def)
  have v: "getitem ?p (str ''verbose'') = Inr (JInt 0)" by (rule getitem_without_cxx)
  have rl: "reconfigure_logging_value ?w (JInt 0) (logcfg initial_state) = Inr (logcfg initial_state)"
    by (simp add: reconfigure_logging_value_def reconfigure_logging_def)
  have av: "w_argv ?w = str ''/usr/libexec/intercept-cc'' # [str ''-c'', str ''a.c'']"
    by (simp add: wrapper_world_def)
  have rc: "real_compiler ?p (basename (str ''/usr/libexec/intercept-cc'')) = Inr (JStr (str ''gcc''))"
    by (simp add: real_compiler_def intercept_names getitem_without_cxx)
  have d: "w_decode ?w (JStr (str ''gcc'')) = Inr [str ''gcc'']"
    by (simp add: wrapper_world_def decode_def)
  have c: "w_call ?w ([str ''gcc''] @ [str ''-c'', str ''a.c'']) = Inr 0"
    by (simp add: wrapper_world_def)
  note run = wrapper_compile_run [OF lp v rl av rc d c]
  have "wrapper_entry_point ?w report_nothing initial_state
      = (Inr 0,
         emit (Log_exception (Msg (str ''Compiler wrapper failed complete.'')) (KeyError (str ''cxx'')))
          (emit (Log_debug (Msg (str ''compilation exit code: %d'')))
            (emit (Subprocess_call [str ''gcc'', str ''-c'', str ''a.c''])
              (emit (Log_debug (Msg (str ''compilation: %s''))) initial_state))))"
    by (simp add: wrapper_entry_point_def run wrapper_report_def getitem_without_cxx)
  then show ?thesis
    by (simp add: emit_def initial_state_def)
qed

text \<open>
  C9, amended. If the environment variable of the configuration is absent, or its value is
  not JSON, the wrapper ends with an exception (\<open>KeyError\<close> or \<open>JSONDecodeError\<close>) and
  leaves the state as it found it: no command has been run, the decorated function has not
  been called, nothing has been logged. It also ends with an exception before any command is
  run when the value read has no entry \<open>verbose\<close>, or no entry for the compiler that the
  invoked name selects. A configuration that lacks only the other compiler's entry is not
  refused: the compiler is run and its exit code returned, the decorated function is not
  called, and the \<open>KeyError\<close> is logged.
\<close>

theorem wrapper_malformed_config_fatal:
  "((w_environ w ENVIRONMENT_KEY = None
       \<or> (\<exists>s e. w_environ w ENVIRONMENT_KEY = Some s \<and> json_loads s = Inl e)) \<longrightarrow>
      (\<exists>e. is_Exception e
         \<and> wrapper_compile w st = (Inl e, st)
         \<and> wrapper_entry_point w func st = (Inl e, st)
         \<and> events (snd (wrapper_entry_point w func st)) = events st))
   \<and> (load_parameters (w_environ w) = Inr parameters
        \<and> getitem parameters (str ''verbose'') = Inl e \<longrightarrow>
        wrapper_entry_point w func st = (Inl e, st))
   \<and> (load_parameters (w_environ w) = Inr parameters
        \<and> getitem parameters (str ''verbose'') = Inr verbose
        \<and> reconfigure_logging_value w verbose (logcfg st) = Inr lg
        \<and> w_argv w = argv0 # args
        \<and> real_compiler parameters (basename argv0) = Inl e \<longrightarrow>
        wrapper_entry_point w func st = (Inl e, st\<lparr>logcfg := lg\<rparr>))
   \<and> (wrapper_compile w st = (Inr (parameters, compiler, command, result), st')
        \<and> (getitem parameters (str ''cc'') = Inl e
            \<or> (\<exists>c. getitem parameters (str ''cc'') = Inr c)
               \<and> getitem parameters (str ''cxx'') = Inl e) \<longrightarrow>
        (\<forall>g. wrapper_entry_point w g st
               = (Inr result,
                  emit (Log_exception (Msg (str ''Compiler wrapper failed complete.'')) e) st')))"
proof -
  have a: "(w_environ w ENVIRONMENT_KEY = None
       \<or> (\<exists>s e. w_environ w ENVIRONMENT_KEY = Some s \<and> json_loads s = Inl e)) \<longrightarrow>
      (\<exists>e. is_Exception e
         \<and> wrapper_compile w st = (Inl e, st)
         \<and> wrapper_entry_point w func st = (Inl e, st)
         \<and> events (snd (wrapper_entry_point w func st)) = events st)"
  proof
    assume "w_environ w ENVIRONMENT_KEY = None
       \<or> (\<exists>s e. w_environ w ENVIRONMENT_KEY = Some s \<and> json_loads s = Inl e)"
    then consider (absent) "w_environ w ENVIRONMENT_KEY = None"
      | (malformed) s e where "w_environ w ENVIRONMENT_KEY = Some s" "json_loads s = Inl e"
      by auto
    then show "\<exists>e. is_Exception e
         \<and> wrapper_compile w st = (Inl e, st)
         \<and> wrapper_entry_point w func st = (Inl e, st)
         \<and> events (snd (wrapper_entry_point w func st)) = events st"
    proof cases
      case absent
      then have c: "wrapper_compile w st = (Inl (KeyError ENVIRONMENT_KEY), st)"
        by (simp add: wrapper_compile_def load_parameters_def)
      then have "wrapper_entry_point w func st = (Inl (KeyError ENVIRONMENT_KEY), st)"
        by (simp add: wrapper_entry_point_def)
      with c have "is_Exception (KeyError ENVIRONMENT_KEY)
           \<and> wrapper_compile w st = (Inl (KeyError ENVIRONMENT_KEY), st)
           \<and> wrapper_entry_point w func st = (Inl (KeyError ENVIRONMENT_KEY), st)
           \<and> events (snd (wrapper_entry_point w func st)) = events st"
        by simp
      then show ?thesis by blast
    next
      case malformed
      from malformed(2) have e: "e = JSONDecodeError" by (rule json_loads_error)
      from malformed e have c: "wrapper_compile w st = (Inl JSONDecodeError, st)"
        by (simp add: wrapper_compile_def load_parameters_def)
      then have "wrapper_entry_point w func st = (Inl JSONDecodeError, st)"
        by (simp add: wrapper_entry_point_def)
      with c have "is_Exception JSONDecodeError
           \<and> wrapper_compile w st = (Inl JSONDecodeError, st)
           \<and> wrapper_entry_point w func st = (Inl JSONDecodeError, st)
           \<and> events (snd (wrapper_entry_point w func st)) = events st"
        by simp
      then show ?thesis by blast
    qed
  qed
  have b: "load_parameters (w_environ w) = Inr parameters
        \<and> getitem parameters (str ''verbose'') = Inl e \<longrightarrow>
        wrapper_entry_point w func st = (Inl e, st)"
    by (simp add: wrapper_entry_point_def wrapper_compile_def)
  have c: "load_parameters (w_environ w) = Inr parameters
        \<and> getitem parameters (str ''verbose'') = Inr verbose
        \<and> reconfigure_logging_value w verbose (logcfg st) = Inr lg
        \<and> w_argv w = argv0 # args
        \<and> real_compiler parameters (basename argv0) = Inl e \<longrightarrow>
        wrapper_entry_point w func st = (Inl e, st\<lparr>logcfg := lg\<rparr>)"
    by (simp add: wrapper_entry_point_def wrapper_compile_def)
  have d: "wrapper_compile w st = (Inr (parameters, compiler, command, result), st')
        \<and> (getitem parameters (str ''cc'') = Inl e
            \<or> (\<exists>c. getitem parameters (str ''cc'') = Inr c)
               \<and> getitem parameters (str ''cxx'') = Inl e) \<longrightarrow>
        (\<forall>g. wrapper_entry_point w g st
               = (Inr result,
                  emit (Log_exception (Msg (str ''Compiler wrapper failed complete.'')) e) st'))"
    by (auto simp: wrapper_entry_point_def wrapper_report_def)
  show ?thesis
    by (intro conjI a b c d)
qed

theorem wrapper_malformed_config_fatal_witness:
  "(\<exists>e. wrapper_entry_point
           (wrapper_world Map.empty [str ''/usr/libexec/intercept-cc'', str ''-c'', str ''a.c'']
              decode 0) report_nothing initial_state = (Inl e, initial_state))
   \<and> (\<exists>e. wrapper_entry_point
           (wrapper_world [ENVIRONMENT_KEY \<mapsto> str ''{verbose: 1}'']
              [str ''/usr/libexec/intercept-cc'', str ''-c'', str ''a.c''] decode 0)
           report_nothing initial_state = (Inl e, initial_state))
   \<and> wrapper_entry_point
        (wrapper_world [ENVIRONMENT_KEY \<mapsto> str ''{}'']
           [str ''/usr/libexec/intercept-cc'', str ''-c'', str ''a.c''] decode 0)
        report_nothing initial_state = (Inl (KeyError (str ''verbose'')), initial_state)"
proof -
  let ?w1 = "wrapper_world Map.empty [str ''/usr/libexec/intercept-cc'', str ''-c'', str ''a.c'']
              decode 0"
  let ?w2 = "wrapper_world [ENVIRONMENT_KEY \<mapsto> str ''{verbose: 1}'']
              [str ''/usr/libexec/intercept-cc'', str ''-c'', str ''a.c''] decode 0"
  let ?w3 = "wrapper_world [ENVIRONMENT_KEY \<mapsto> str ''{}'']
              [str ''/usr/libexec/intercept-cc'', str ''-c'', str ''a.c''] decode 0"
  have h1: "w_environ ?w1 ENVIRONMENT_KEY = None
      \<or> (\<exists>s e. w_environ ?w1 ENVIRONMENT_KEY = Some s \<and> json_loads s = Inl e)"
    by (simp add: wrapper_world_def)
  have bad: "json_loads (str ''{verbose: 1}'') = Inl JSONDecodeError"
    by (simp add: json_loads_def str_def tok_def scan_number_def is_digit_def)
  have h2: "w_environ ?w2 ENVIRONMENT_KEY = None
      \<or> (\<exists>s e. w_environ ?w2 ENVIRONMENT_KEY = Some s \<and> json_loads s = Inl e)"
    using bad by (simp add: wrapper_world_def)
  have a: "\<exists>e. wrapper_entry_point ?w1 report_nothing initial_state = (Inl e, initial_state)"
    using wrapper_malformed_config_fatal [where w = ?w1 and st = initial_state
        and func = report_nothing, THEN conjunct1, rule_format, OF h1]
    by blast
  have b: "\<exists>e. wrapper_entry_point ?w2 report_nothing initial_state = (Inl e, initial_state)"
    using wrapper_malformed_config_fatal [where w = ?w2 and st = initial_state
        and func = report_nothing, THEN conjunct1, rule_format, OF h2]
    by blast
  have empty: "json_loads (str ''{}'') = Inr (JObj [])"
    by (simp add: json_loads_def str_def tok_def begin_value_def close_object_def)
  have h3: "load_parameters (w_environ ?w3) = Inr (JObj [])
      \<and> getitem (JObj []) (str ''verbose'') = Inl (KeyError (str ''verbose''))"
    using empty by (simp add: wrapper_world_def load_parameters_def getitem_def)
  have c: "wrapper_entry_point ?w3 report_nothing initial_state
      = (Inl (KeyError (str ''verbose'')), initial_state)"
    using wrapper_malformed_config_fatal [where w = ?w3 and st = initial_state
        and func = report_nothing and parameters = "JObj []"
        and e = "KeyError (str ''verbose'')", THEN conjunct2, THEN conjunct1, rule_format, OF h3] .
  show ?thesis
    by (intro conjI a b c)
qed

end
